theory Spec2Isabelle
  imports Main
begin

section \<open>The demo script: a greeting and a running calculator\<close>

text \<open>
  The program is one Python file, \<^verbatim>\<open>demo.py\<close>: a function \<^verbatim>\<open>hello_world\<close>, a class
  \<^verbatim>\<open>Calculator\<close> with the methods \<^verbatim>\<open>__init__\<close>, \<^verbatim>\<open>add\<close> and \<^verbatim>\<open>multiply\<close>, and a
  \<^verbatim>\<open>__main__\<close> block. Python is dynamically typed: \<^verbatim>\<open>self.value += num\<close> and
  \<^verbatim>\<open>self.value *= num\<close> accept any object, and what they do depends on the classes of
  both operands. The embedding therefore starts with the values and the two operators of
  the language, and the program itself comes after.
\<close>

subsection \<open>Python values\<close>

text \<open>
  A float is an IEEE 754 binary64 number. \<open>Finite m e\<close> stands for \<open>m * 2 ^ e\<close> with a
  mantissa of at most 53 bits: \<open>\<bar>m\<bar> < 2 ^ 53\<close>, \<open>- 1074 \<le> e \<le> 971\<close>, and
  \<open>2 ^ 52 \<le> \<bar>m\<bar>\<close> unless \<open>e = - 1074\<close> (the subnormal numbers and zero, which is
  \<open>Finite 0 (- 1074)\<close>). The two zeros of the format are one value here: Python's
  \<^verbatim>\<open>-0.0 == 0.0\<close> is true, and they differ only in how they print.
\<close>

datatype pyfloat = Finite int int | PosInf | NegInf | NaN

text \<open>
  The fragment of the object universe the development needs: \<^verbatim>\<open>None\<close>, the unbounded
  integers, the floats and the strings (a string is the list of its characters).
\<close>

datatype pyval = PNone | PInt int | PFloat pyfloat | PStr string

datatype pyerr = TypeError | OverflowError | AttributeError

type_synonym 'a result = "pyerr + 'a"

definition and_then :: "'a result \<Rightarrow> ('a \<Rightarrow> 'b result) \<Rightarrow> 'b result" where
  "and_then r k = (case r of Inl e \<Rightarrow> Inl e | Inr x \<Rightarrow> k x)"

subsection \<open>Rounding to binary64\<close>

text \<open>
  \<^verbatim>\<open>int.bit_length\<close> on a non-negative integer: the number of its binary digits.
\<close>

function bit_length :: "int \<Rightarrow> nat" where
  "bit_length a = (if a \<le> 0 then 0 else Suc (bit_length (a div 2)))"
  by pat_completeness auto
termination
  by (relation "measure nat") auto

declare bit_length.simps [simp del]

text \<open>
  The integer nearest to \<open>a / 2 ^ k\<close> for a non-negative \<open>a\<close>, a tie going to the even
  neighbour.
\<close>

definition round_half_even :: "int \<Rightarrow> nat \<Rightarrow> int" where
  "round_half_even a k =
     (let d = 2 ^ k; q = a div d; r = a mod d
      in if d < 2 * r \<or> (2 * r = d \<and> odd q) then q + 1 else q)"

text \<open>
  The binary64 number nearest to the exact value \<open>m * 2 ^ e\<close> (round to nearest, ties to
  even). The quantum \<open>2 ^ q\<close> is chosen so that the mantissa gets 53 bits, but never below
  the subnormal quantum \<open>2 ^ (- 1074)\<close>; a mantissa that rounds up to \<open>2 ^ 53\<close> moves to the
  next binade; a result of \<open>2 ^ 1024\<close> or more is an infinity.
\<close>

definition round_to_double :: "int \<Rightarrow> int \<Rightarrow> pyfloat" where
  "round_to_double m e =
     (if m = 0 then Finite 0 (- 1074)
      else
        let a = \<bar>m\<bar>;
            q = max (e + int (bit_length a) - 53) (- 1074);
            n = (if q \<le> e then a * 2 ^ nat (e - q) else round_half_even a (nat (q - e)));
            n' = (if n = 2 ^ 53 then 2 ^ 52 else n);
            q' = (if n = 2 ^ 53 then q + 1 else q)
        in if 971 < q' then (if m < 0 then NegInf else PosInf)
           else if n' = 0 then Finite 0 (- 1074)
           else Finite (if m < 0 then - n' else n') q')"

text \<open>
  The C double operations behind \<^verbatim>\<open>float.__add__\<close> and \<^verbatim>\<open>float.__mul__\<close>: the exact
  result, rounded. Neither raises: an overflow gives an infinity, an undefined result
  (\<open>\<infinity> - \<infinity>\<close>, \<open>\<infinity> * 0\<close>) gives \<^verbatim>\<open>nan\<close>.
\<close>

fun float_add :: "pyfloat \<Rightarrow> pyfloat \<Rightarrow> pyfloat" where
  "float_add NaN y = NaN"
| "float_add x NaN = NaN"
| "float_add PosInf NegInf = NaN"
| "float_add NegInf PosInf = NaN"
| "float_add PosInf y = PosInf"
| "float_add NegInf y = NegInf"
| "float_add x PosInf = PosInf"
| "float_add x NegInf = NegInf"
| "float_add (Finite m1 e1) (Finite m2 e2) =
     (let e = min e1 e2
      in round_to_double (m1 * 2 ^ nat (e1 - e) + m2 * 2 ^ nat (e2 - e)) e)"

definition float_sign :: "pyfloat \<Rightarrow> int" where
  "float_sign x =
     (case x of Finite m e \<Rightarrow> sgn m | PosInf \<Rightarrow> 1 | NegInf \<Rightarrow> - 1 | NaN \<Rightarrow> 0)"

fun float_mul :: "pyfloat \<Rightarrow> pyfloat \<Rightarrow> pyfloat" where
  "float_mul NaN y = NaN"
| "float_mul x NaN = NaN"
| "float_mul (Finite m1 e1) (Finite m2 e2) = round_to_double (m1 * m2) (e1 + e2)"
| "float_mul x y =
     (let s = float_sign x * float_sign y
      in if s = 0 then NaN else if s < 0 then NegInf else PosInf)"

text \<open>
  \<^verbatim>\<open>PyLong_AsDouble\<close>: an integer operand of a float operation is converted first,
  correctly rounded, and the conversion raises \<^verbatim>\<open>OverflowError\<close> where the rounded
  value would not be finite.
\<close>

definition int_to_float :: "int \<Rightarrow> pyfloat result" where
  "int_to_float i =
     (case round_to_double i 0 of
        Finite m e \<Rightarrow> Inr (Finite m e)
      | _ \<Rightarrow> Inl OverflowError)"

text \<open>The numbers of the format, in the representation described above.\<close>

definition is_double :: "pyfloat \<Rightarrow> bool" where
  "is_double x =
     (case x of
        Finite m e \<Rightarrow> \<bar>m\<bar> < 2 ^ 53 \<and> - 1074 \<le> e \<and> e \<le> 971 \<and> (2 ^ 52 \<le> \<bar>m\<bar> \<or> e = - 1074)
      | _ \<Rightarrow> True)"

subsection \<open>The operators \<^verbatim>\<open>+\<close> and \<^verbatim>\<open>*\<close>\<close>

text \<open>
  None of the four classes defines \<^verbatim>\<open>__iadd__\<close> or \<^verbatim>\<open>__imul__\<close>, so the augmented
  assignments \<^verbatim>\<open>+=\<close> and \<^verbatim>\<open>*=\<close> compute \<^verbatim>\<open>+\<close> and \<^verbatim>\<open>*\<close> and rebind the target.
  Numbers add and multiply, with an integer converted when the other operand is a float;
  two strings concatenate; a string and an integer multiply to a repetition; every other
  pairing raises \<^verbatim>\<open>TypeError\<close>. The lengths are those of CPython on a 64-bit platform:
  a string longer than the largest signed 64-bit index is refused with
  \<^verbatim>\<open>OverflowError\<close>. Below that limit objects are as large as the values need: the
  embedding has no \<^verbatim>\<open>MemoryError\<close>.
\<close>

fun py_add :: "pyval \<Rightarrow> pyval \<Rightarrow> pyval result" where
  "py_add (PInt a) (PInt b) = Inr (PInt (a + b))"
| "py_add (PInt a) (PFloat y) = and_then (int_to_float a) (\<lambda>x. Inr (PFloat (float_add x y)))"
| "py_add (PFloat x) (PInt b) = and_then (int_to_float b) (\<lambda>y. Inr (PFloat (float_add x y)))"
| "py_add (PFloat x) (PFloat y) = Inr (PFloat (float_add x y))"
| "py_add (PStr s) (PStr t) =
     (if 2 ^ 63 \<le> int (length s) + int (length t) then Inl OverflowError
      else Inr (PStr (s @ t)))"
| "py_add v n = Inl TypeError"

text \<open>
  \<^verbatim>\<open>sequence_repeat\<close> and \<^verbatim>\<open>unicode_repeat\<close> of CPython: the count must fit a signed
  64-bit index, a count below one gives the empty string, and the length of the result
  must fit the index type too.
\<close>

definition str_repeat :: "string \<Rightarrow> int \<Rightarrow> pyval result" where
  "str_repeat s n =
     (if n < - (2 ^ 63) \<or> 2 ^ 63 \<le> n then Inl OverflowError
      else if n < 1 then Inr (PStr [])
      else if 2 ^ 63 \<le> int (length s) * n then Inl OverflowError
      else Inr (PStr (concat (replicate (nat n) s))))"

fun py_mul :: "pyval \<Rightarrow> pyval \<Rightarrow> pyval result" where
  "py_mul (PInt a) (PInt b) = Inr (PInt (a * b))"
| "py_mul (PInt a) (PFloat y) = and_then (int_to_float a) (\<lambda>x. Inr (PFloat (float_mul x y)))"
| "py_mul (PFloat x) (PInt b) = and_then (int_to_float b) (\<lambda>y. Inr (PFloat (float_mul x y)))"
| "py_mul (PFloat x) (PFloat y) = Inr (PFloat (float_mul x y))"
| "py_mul (PStr s) (PInt n) = str_repeat s n"
| "py_mul (PInt n) (PStr s) = str_repeat s n"
| "py_mul v n = Inl TypeError"

subsection \<open>Objects, standard output and the built-ins\<close>

text \<open>
  An instance is its attribute dictionary; the heap gives the dictionary of every
  reference (empty for an object without attributes); \<open>stdout\<close> is the text written to
  standard output so far.
\<close>

type_synonym ref = nat

type_synonym pyobj = "string \<rightharpoonup> pyval"

record world =
  heap :: "ref \<Rightarrow> pyobj"
  next_ref :: ref
  stdout :: string

definition getattr :: "world \<Rightarrow> ref \<Rightarrow> string \<Rightarrow> pyval result" where
  "getattr w r a = (case heap w r a of None \<Rightarrow> Inl AttributeError | Some v \<Rightarrow> Inr v)"

definition setattr :: "world \<Rightarrow> ref \<Rightarrow> string \<Rightarrow> pyval \<Rightarrow> world" where
  "setattr w r a v = w\<lparr>heap := (heap w)(r := (heap w r)(a \<mapsto> v))\<rparr>"

text \<open>
  \<^verbatim>\<open>print(s)\<close> writes the text and a newline. Standard output is taken to be open and
  writable: a failing stream is the business of the environment, not of the program.
\<close>

definition py_print :: "world \<Rightarrow> string \<Rightarrow> world" where
  "py_print w s = w\<lparr>stdout := stdout w @ s @ [CHR 0x0A]\<rparr>"

text \<open>
  \<^verbatim>\<open>str\<close> of an integer: its decimal digits, with a minus sign when negative. (Recent
  interpreters refuse to convert an integer of more than 4300 digits; the program prints
  two digits, and the limit is left out.)
\<close>

definition digit_char :: "int \<Rightarrow> char" where
  "digit_char d = ''0123456789'' ! nat d"

function digits :: "int \<Rightarrow> string" where
  "digits n = (if n < 10 then [digit_char n] else digits (n div 10) @ [digit_char (n mod 10)])"
  by pat_completeness auto
termination
  by (relation "measure nat") auto

declare digits.simps [simp del]

definition int_str :: "int \<Rightarrow> string" where
  "int_str i = (if i < 0 then CHR ''-'' # digits (- i) else digits i)"

text \<open>
  What a replacement field \<^verbatim>\<open>{x}\<close> of an f-string puts into the text: \<^verbatim>\<open>format(x, '')\<close>,
  which is \<^verbatim>\<open>str(x)\<close> for these classes. The shortest-digits algorithm behind
  \<^verbatim>\<open>float.__repr__\<close> is not part of the program and is taken as the parameter
  \<open>float_repr\<close>.
\<close>

definition format_value :: "(pyfloat \<Rightarrow> string) \<Rightarrow> pyval \<Rightarrow> string" where
  "format_value float_repr v =
     (case v of
        PNone \<Rightarrow> ''None''
      | PInt i \<Rightarrow> int_str i
      | PFloat x \<Rightarrow> float_repr x
      | PStr s \<Rightarrow> s)"

subsection \<open>The program\<close>

text \<open>
  \<^verbatim>\<open>
  def hello_world():
      print("Hello World!")
      return "success"
  \<close>
\<close>

definition hello_world :: "world \<Rightarrow> pyval \<times> world" where
  "hello_world w = (let w1 = py_print w ''Hello World!'' in (PStr ''success'', w1))"

text \<open>
  \<^verbatim>\<open>
  class Calculator:
      def __init__(self):
          self.value = 0
  \<close>
  Calling the class allocates a new instance, with no attribute yet, and runs
  \<^verbatim>\<open>__init__\<close> on it.
\<close>

definition Calculator_init :: "world \<Rightarrow> ref \<Rightarrow> world" where
  "Calculator_init w self = setattr w self ''value'' (PInt 0)"

definition Calculator :: "world \<Rightarrow> ref \<times> world" where
  "Calculator w =
     (let self = next_ref w;
          w1 = w\<lparr>heap := (heap w)(self := Map.empty), next_ref := self + 1\<rparr>
      in (self, Calculator_init w1 self))"

text \<open>
  \<^verbatim>\<open>
      def add(self, num):
          self.value += num
          return self.value

      def multiply(self, num):
          self.value *= num
          return self.value
  \<close>
  The augmented assignment reads the attribute, applies the operator and stores the
  result; an exception of the operator leaves the method before the store, and nothing
  in the method catches it.
\<close>

definition add :: "world \<Rightarrow> ref \<Rightarrow> pyval \<Rightarrow> (pyval \<times> world) result" where
  "add w self num =
     and_then (getattr w self ''value'') (\<lambda>v.
     and_then (py_add v num) (\<lambda>v'.
     let w1 = setattr w self ''value'' v' in
     and_then (getattr w1 self ''value'') (\<lambda>r. Inr (r, w1))))"

definition multiply :: "world \<Rightarrow> ref \<Rightarrow> pyval \<Rightarrow> (pyval \<times> world) result" where
  "multiply w self num =
     and_then (getattr w self ''value'') (\<lambda>v.
     and_then (py_mul v num) (\<lambda>v'.
     let w1 = setattr w self ''value'' v' in
     and_then (getattr w1 self ''value'') (\<lambda>r. Inr (r, w1))))"

text \<open>
  \<^verbatim>\<open>
  if __name__ == "__main__":
      calc = Calculator()
      calc.add(5)
      calc.multiply(2)
      print(f"Result: {calc.value}")
  \<close>
  The block runs when the file is the script. The two results are discarded. The
  interpreter ends with status 0 when the block finishes and with status 1 when an
  exception leaves it.
\<close>

definition main :: "(pyfloat \<Rightarrow> string) \<Rightarrow> world \<Rightarrow> world result" where
  "main float_repr w =
     (let (calc, w1) = Calculator w in
      and_then (add w1 calc (PInt 5)) (\<lambda>(r1, w2).
      and_then (multiply w2 calc (PInt 2)) (\<lambda>(r2, w3).
      and_then (getattr w3 calc ''value'') (\<lambda>v.
      Inr (py_print w3 (''Result: '' @ format_value float_repr v))))))"

definition exit_status :: "world result \<Rightarrow> nat" where
  "exit_status r = (case r of Inl e \<Rightarrow> 1 | Inr w \<Rightarrow> 0)"

subsection \<open>Clients: sequences of calls\<close>

text \<open>
  A caller that invokes the two methods one after the other on the same instance and
  handles no exception: the first call that raises ends the run.
\<close>

datatype 'a op = Add 'a | Multiply 'a

fun call :: "world \<Rightarrow> ref \<Rightarrow> pyval op \<Rightarrow> (pyval \<times> world) result" where
  "call w self (Add n) = add w self n"
| "call w self (Multiply n) = multiply w self n"

fun run_ops :: "world \<Rightarrow> ref \<Rightarrow> pyval op list \<Rightarrow> world result" where
  "run_ops w self [] = Inr w"
| "run_ops w self (x # xs) = and_then (call w self x) (\<lambda>(r, w1). run_ops w1 self xs)"

text \<open>
  The left-to-right fold the specification speaks of: over the integers with the
  arithmetic of \<open>int\<close>, and over all values with the operators of the language, where a
  step that raises ends the fold.
\<close>

definition int_fold :: "int \<Rightarrow> int op list \<Rightarrow> int" where
  "int_fold v xs = foldl (\<lambda>acc x. case x of Add n \<Rightarrow> acc + n | Multiply n \<Rightarrow> acc * n) v xs"

fun py_fold :: "pyval \<Rightarrow> pyval op list \<Rightarrow> pyval result" where
  "py_fold v [] = Inr v"
| "py_fold v (Add n # xs) = and_then (py_add v n) (\<lambda>v'. py_fold v' xs)"
| "py_fold v (Multiply n # xs) = and_then (py_mul v n) (\<lambda>v'. py_fold v' xs)"

text \<open>The numeric classes of the fragment: \<^verbatim>\<open>int\<close> and \<^verbatim>\<open>float\<close>.\<close>

definition is_numeric :: "pyval \<Rightarrow> bool" where
  "is_numeric v = (case v of PInt i \<Rightarrow> True | PFloat x \<Rightarrow> True | PNone \<Rightarrow> False | PStr s \<Rightarrow> False)"

text \<open>
  The arithmetic of the specification on numbers, written out: two integers add and
  multiply exactly, two floats in binary64, and an integer that meets a float is rounded
  to a float first, which it has when its magnitude is below \<open>2 ^ 1024 - 2 ^ 970\<close>. There
  is no result otherwise. \<open>num_fold\<close> is the left-to-right fold of these operations over a
  sequence of calls, without a result as soon as one step has none.
\<close>

fun op_arg :: "'a op \<Rightarrow> 'a" where
  "op_arg (Add n) = n"
| "op_arg (Multiply n) = n"

fun num_plus :: "pyval \<Rightarrow> pyval \<Rightarrow> pyval option" where
  "num_plus (PInt a) (PInt b) = Some (PInt (a + b))"
| "num_plus (PFloat x) (PFloat y) = Some (PFloat (float_add x y))"
| "num_plus (PInt a) (PFloat y) =
     (if \<bar>a\<bar> < 2 ^ 1024 - 2 ^ 970 then Some (PFloat (float_add (round_to_double a 0) y))
      else None)"
| "num_plus (PFloat x) (PInt b) =
     (if \<bar>b\<bar> < 2 ^ 1024 - 2 ^ 970 then Some (PFloat (float_add x (round_to_double b 0)))
      else None)"
| "num_plus v n = None"

fun num_times :: "pyval \<Rightarrow> pyval \<Rightarrow> pyval option" where
  "num_times (PInt a) (PInt b) = Some (PInt (a * b))"
| "num_times (PFloat x) (PFloat y) = Some (PFloat (float_mul x y))"
| "num_times (PInt a) (PFloat y) =
     (if \<bar>a\<bar> < 2 ^ 1024 - 2 ^ 970 then Some (PFloat (float_mul (round_to_double a 0) y))
      else None)"
| "num_times (PFloat x) (PInt b) =
     (if \<bar>b\<bar> < 2 ^ 1024 - 2 ^ 970 then Some (PFloat (float_mul x (round_to_double b 0)))
      else None)"
| "num_times v n = None"

fun num_fold :: "pyval \<Rightarrow> pyval op list \<Rightarrow> pyval option" where
  "num_fold v [] = Some v"
| "num_fold v (Add n # xs) = (case num_plus v n of None \<Rightarrow> None | Some r \<Rightarrow> num_fold r xs)"
| "num_fold v (Multiply n # xs) =
     (case num_times v n of None \<Rightarrow> None | Some r \<Rightarrow> num_fold r xs)"

text \<open>The lines of a text: each ends with its newline.\<close>

fun text_lines :: "string \<Rightarrow> string \<Rightarrow> string list" where
  "text_lines cur [] = (if cur = [] then [] else [cur])"
| "text_lines cur (c # cs) =
     (if c = CHR 0x0A then cur # text_lines [] cs else text_lines (cur @ [c]) cs)"

text \<open>The world in which the interpreter starts the script: no object, nothing written.\<close>

definition start_world :: world where
  "start_world = \<lparr>heap = (\<lambda>r. Map.empty), next_ref = 0, stdout = []\<rparr>"

section \<open>Properties\<close>

subsection \<open>Reading and writing attributes\<close>

lemma and_then_Inr [simp]: "and_then (Inr x) k = k x"
  by (simp add: and_then_def)

lemma and_then_Inl [simp]: "and_then (Inl e) k = Inl e"
  by (simp add: and_then_def)

lemma getattr_Some: "heap w r a = Some v \<Longrightarrow> getattr w r a = Inr v"
  by (simp add: getattr_def)

lemma getattr_None: "heap w r a = None \<Longrightarrow> getattr w r a = Inl AttributeError"
  by (simp add: getattr_def)

lemma getattr_setattr [simp]: "getattr (setattr w r a v) r a = Inr v"
  by (simp add: getattr_def setattr_def)

lemma heap_setattr_same [simp]: "heap (setattr w r a v) r a = Some v"
  by (simp add: setattr_def)

lemma stdout_setattr [simp]: "stdout (setattr w r a v) = stdout w"
  by (simp add: setattr_def)

lemma next_ref_setattr [simp]: "next_ref (setattr w r a v) = next_ref w"
  by (simp add: setattr_def)

text \<open>Each method is the operator applied to the stored value, stored and returned.\<close>

lemma add_eq:
  "heap w self ''value'' = Some v \<Longrightarrow>
     add w self n = and_then (py_add v n) (\<lambda>r. Inr (r, setattr w self ''value'' r))"
  by (simp add: add_def getattr_Some)

lemma multiply_eq:
  "heap w self ''value'' = Some v \<Longrightarrow>
     multiply w self n = and_then (py_mul v n) (\<lambda>r. Inr (r, setattr w self ''value'' r))"
  by (simp add: multiply_def getattr_Some)

lemma start_world_sel [simp]:
  "heap start_world = (\<lambda>r. Map.empty)" "next_ref start_world = 0" "stdout start_world = []"
  by (simp_all add: start_world_def)

lemma Calculator_value: "heap (snd (Calculator w)) (fst (Calculator w)) ''value'' = Some (PInt 0)"
  by (simp add: Calculator_def Calculator_init_def Let_def)

subsection \<open>Sequences of operations\<close>

lemma run_ops_int:
  "heap w self ''value'' = Some (PInt v) \<Longrightarrow>
     \<exists>w'. run_ops w self (map (map_op PInt) xs) = Inr w' \<and>
          heap w' self ''value'' = Some (PInt (int_fold v xs))"
proof (induction xs arbitrary: w v)
  case Nil
  then show ?case by (simp add: int_fold_def)
next
  case (Cons x xs)
  show ?case
  proof (cases x)
    case (Add n)
    have "heap (setattr w self ''value'' (PInt (v + n))) self ''value'' = Some (PInt (v + n))"
      by simp
    from Cons.IH [OF this] show ?thesis
      using Cons.prems Add by (simp add: add_eq int_fold_def)
  next
    case (Multiply n)
    have "heap (setattr w self ''value'' (PInt (v * n))) self ''value'' = Some (PInt (v * n))"
      by simp
    from Cons.IH [OF this] show ?thesis
      using Cons.prems Multiply by (simp add: multiply_eq int_fold_def)
  qed
qed

lemma run_ops_py_fold:
  "heap w self ''value'' = Some v \<Longrightarrow>
     map_sum id (\<lambda>w'. heap w' self ''value'') (run_ops w self ys) = map_sum id Some (py_fold v ys)"
proof (induction ys arbitrary: w v)
  case Nil
  then show ?case by simp
next
  case (Cons y ys)
  show ?case
  proof (cases y)
    case (Add n)
    show ?thesis
    proof (cases "py_add v n")
      case (Inl e)
      then show ?thesis using Cons.prems Add by (simp add: add_eq)
    next
      case (Inr r)
      have "heap (setattr w self ''value'' r) self ''value'' = Some r" by simp
      from Cons.IH [OF this] show ?thesis
        using Cons.prems Add Inr by (simp add: add_eq)
    qed
  next
    case (Multiply n)
    show ?thesis
    proof (cases "py_mul v n")
      case (Inl e)
      then show ?thesis using Cons.prems Multiply by (simp add: multiply_eq)
    next
      case (Inr r)
      have "heap (setattr w self ''value'' r) self ''value'' = Some r" by simp
      from Cons.IH [OF this] show ?thesis
        using Cons.prems Multiply Inr by (simp add: multiply_eq)
    qed
  qed
qed

subsection \<open>The rounding function\<close>

text \<open>
  The rounding function of the embedding is checked against the format: its result is
  always a number of the format, a number of the format rounds to itself, and scaling the
  mantissa against the exponent does not change the result. So adding the float zero
  changes nothing. An integer has a float exactly when its magnitude is below
  \<open>2 ^ 1024 - 2 ^ 970\<close>, the midpoint between the largest float and \<open>2 ^ 1024\<close>.
\<close>

lemma bit_length_pos: "0 < a \<Longrightarrow> bit_length a = Suc (bit_length (a div 2))"
  by (simp add: bit_length.simps [of a])

lemma bit_length_nonpos: "a \<le> 0 \<Longrightarrow> bit_length a = 0"
  by (simp add: bit_length.simps [of a])

lemma bit_length_upper: "0 \<le> a \<Longrightarrow> a < 2 ^ bit_length a"
proof (induction a rule: bit_length.induct)
  case (1 a)
  show ?case
  proof (cases "a \<le> 0")
    case True
    with "1.prems" show ?thesis by (simp add: bit_length_nonpos)
  next
    case False
    then have pos: "0 < a" by simp
    then have "a div 2 < 2 ^ bit_length (a div 2)"
      using "1.IH" False by simp
    then have "a < 2 * 2 ^ bit_length (a div 2)" by linarith
    then show ?thesis by (simp add: bit_length_pos [OF pos])
  qed
qed

lemma bit_length_lower: "0 < a \<Longrightarrow> 2 ^ (bit_length a - 1) \<le> a"
proof (induction a rule: bit_length.induct)
  case (1 a)
  from "1.prems" have pos: "0 < a" .
  show ?case
  proof (cases "a div 2 \<le> 0")
    case True
    then have "bit_length (a div 2) = 0" by (rule bit_length_nonpos)
    then show ?thesis using pos by (simp add: bit_length_pos [OF pos])
  next
    case False
    then have p2: "0 < a div 2" by simp
    then have "2 ^ (bit_length (a div 2) - 1) \<le> a div 2"
      using "1.IH" pos by simp
    moreover have "0 < bit_length (a div 2)" by (simp add: bit_length_pos [OF p2])
    ultimately have "2 ^ bit_length (a div 2) \<le> 2 * (a div 2)"
      by (cases "bit_length (a div 2)") simp_all
    also have "\<dots> \<le> a" by linarith
    finally show ?thesis by (simp add: bit_length_pos [OF pos])
  qed
qed

lemma bit_length_unique: "0 < a \<Longrightarrow> 2 ^ k \<le> a \<Longrightarrow> a < 2 ^ Suc k \<Longrightarrow> bit_length a = Suc k"
proof -
  assume pos: "0 < a" and lo: "2 ^ k \<le> a" and hi: "a < 2 ^ Suc k"
  have u: "a < 2 ^ bit_length a" using pos by (simp add: bit_length_upper)
  have l: "2 ^ (bit_length a - 1) \<le> a" using pos by (rule bit_length_lower)
  have "(2::int) ^ k < 2 ^ bit_length a" using lo u by linarith
  then have 1: "k < bit_length a" by (rule power_less_imp_less_exp [rotated]) simp
  have "(2::int) ^ (bit_length a - 1) < 2 ^ Suc k" using l hi by linarith
  then have 2: "bit_length a - 1 < Suc k" by (rule power_less_imp_less_exp [rotated]) simp
  from 1 2 show ?thesis by linarith
qed

lemma int_div_less: "0 < d \<Longrightarrow> a < c * d \<Longrightarrow> a div d < (c::int)"
proof -
  assume d: "0 < d" and lt: "a < c * d"
  have "a = (a div d) * d + a mod d" by simp
  moreover have "0 \<le> a mod d" using d by simp
  ultimately have "(a div d) * d \<le> a" by linarith
  with lt have "(a div d) * d < c * d" by linarith
  then show ?thesis using d by (simp add: mult_less_cancel_right)
qed

lemma int_le_div: "0 < d \<Longrightarrow> c * d \<le> a \<Longrightarrow> (c::int) \<le> a div d"
proof -
  assume d: "0 < d" and le: "c * d \<le> a"
  from le d have "(c * d) div d \<le> a div d" by (rule zdiv_mono1)
  then show ?thesis using d by simp
qed

lemma round_half_even_bounds:
  "0 \<le> a \<Longrightarrow> a div 2 ^ k \<le> round_half_even a k \<and> round_half_even a k \<le> a div 2 ^ k + 1"
  by (simp add: round_half_even_def Let_def)

lemma round_to_double_is_double: "is_double (round_to_double m e)"
proof (cases "m = 0")
  case True
  then show ?thesis by (simp add: round_to_double_def is_double_def)
next
  case False
  define a where "a = \<bar>m\<bar>"
  define L where "L = bit_length a"
  define q where "q = max (e + int L - 53) (- 1074)"
  define n where "n = (if q \<le> e then a * 2 ^ nat (e - q) else round_half_even a (nat (q - e)))"
  have pos: "0 < a" using False by (simp add: a_def)
  have up: "a < 2 ^ L" unfolding L_def using pos by (simp add: bit_length_upper)
  have lo: "2 ^ (L - 1) \<le> a" unfolding L_def using pos by (rule bit_length_lower)
  have Lpos: "0 < L" using pos by (simp add: L_def bit_length_pos)
  have qlow: "- 1074 \<le> q" by (simp add: q_def)
  have qge: "e + int L - 53 \<le> q" by (simp add: q_def)
  have n_le: "n \<le> 2 ^ 53 \<and> (q \<le> e \<longrightarrow> n < 2 ^ 53)"
  proof (cases "q \<le> e")
    case True
    then have n: "n = a * 2 ^ nat (e - q)" by (simp add: n_def)
    have "L + nat (e - q) \<le> 53" using qge True by linarith
    then have "(2::int) ^ (L + nat (e - q)) \<le> 2 ^ 53" by (rule power_increasing) simp
    then have le: "(2::int) ^ L * 2 ^ nat (e - q) \<le> 2 ^ 53" by (simp only: power_add)
    have lt: "a * 2 ^ nat (e - q) < 2 ^ L * 2 ^ nat (e - q)"
      using up by simp
    have "n < 2 ^ 53" unfolding n by (rule less_le_trans [OF lt le])
    then show ?thesis using True by simp
  next
    case F: False
    then have n: "n = round_half_even a (nat (q - e))" by (simp add: n_def)
    have "L \<le> nat (q - e) + 53" using qge F by linarith
    then have "(2::int) ^ L \<le> 2 ^ (nat (q - e) + 53)" by (rule power_increasing) simp
    with up have "a < 2 ^ 53 * 2 ^ nat (q - e)" by (simp add: power_add mult.commute)
    then have "a div 2 ^ nat (q - e) < 2 ^ 53"
      by (intro int_div_less) simp_all
    then show ?thesis using F round_half_even_bounds [of a "nat (q - e)"] pos
      by (simp add: n)
  qed
  have n_ge: "2 ^ 52 \<le> n \<or> q = - 1074"
  proof (cases "q = - 1074")
    case True
    then show ?thesis by simp
  next
    case F: False
    then have qeq: "q = e + int L - 53" by (simp add: q_def max_def split: if_splits)
    show ?thesis
    proof (cases "q \<le> e")
      case True
      then have n: "n = a * 2 ^ nat (e - q)" by (simp add: n_def)
      have "nat (e - q) + (L - 1) = 52" using qeq True Lpos by linarith
      then have "(2::int) ^ 52 = 2 ^ (L - 1) * 2 ^ nat (e - q)"
        by (simp add: power_add [symmetric] add.commute)
      also have "\<dots> \<le> a * 2 ^ nat (e - q)" using lo by simp
      finally show ?thesis by (simp add: n)
    next
      case G: False
      then have n: "n = round_half_even a (nat (q - e))" by (simp add: n_def)
      have "L - 1 = nat (q - e) + 52" using qeq G Lpos by linarith
      then have "(2::int) ^ (L - 1) = 2 ^ 52 * 2 ^ nat (q - e)"
        by (simp add: power_add mult.commute)
      with lo have "2 ^ 52 * 2 ^ nat (q - e) \<le> a" by simp
      then have "2 ^ 52 \<le> a div 2 ^ nat (q - e)"
        by (intro int_le_div) simp_all
      then show ?thesis using round_half_even_bounds [of a "nat (q - e)"] pos
        by (simp add: n)
    qed
  qed
  have dnn: "0 \<le> a div 2 ^ nat (q - e)"
    using pos by (simp add: pos_imp_zdiv_nonneg_iff)
  have npos: "0 \<le> n"
  proof (cases "q \<le> e")
    case True
    then show ?thesis using pos by (simp add: n_def)
  next
    case F: False
    from round_half_even_bounds [of a "nat (q - e)"] pos dnn
    have "0 \<le> round_half_even a (nat (q - e))" by linarith
    then show ?thesis using F by (simp add: n_def)
  qed
  have r: "round_to_double m e =
          (let n' = (if n = 2 ^ 53 then 2 ^ 52 else n);
               q' = (if n = 2 ^ 53 then q + 1 else q)
           in if 971 < q' then (if m < 0 then NegInf else PosInf)
              else if n' = 0 then Finite 0 (- 1074)
              else Finite (if m < 0 then - n' else n') q')"
    unfolding round_to_double_def a_def L_def q_def n_def Let_def
    using False by (simp only: if_False simp_thms)
  show ?thesis
  proof (cases "n = 2 ^ 53")
    case True
    then have "round_to_double m e =
        (if 971 < q + 1 then (if m < 0 then NegInf else PosInf)
         else Finite (if m < 0 then - (2 ^ 52) else 2 ^ 52) (q + 1))"
      by (simp add: r)
    then show ?thesis using qlow by (simp add: is_double_def)
  next
    case F: False
    with n_le have lt: "n < 2 ^ 53" by simp
    from F have "round_to_double m e =
        (if 971 < q then (if m < 0 then NegInf else PosInf)
         else if n = 0 then Finite 0 (- 1074)
         else Finite (if m < 0 then - n else n) q)"
      by (simp add: r)
    moreover have "\<bar>if m < 0 then - n else n\<bar> = n" using npos by simp
    ultimately show ?thesis using lt n_ge qlow
      by (simp add: is_double_def)
  qed
qed


lemma bit_length_le: "0 \<le> a \<Longrightarrow> a < 2 ^ k \<Longrightarrow> bit_length a \<le> k"
proof (cases "a = 0")
  case True
  then show ?thesis by (simp add: bit_length_nonpos)
next
  case False
  assume "0 \<le> a" and hi: "a < 2 ^ k"
  with False have pos: "0 < a" by simp
  from bit_length_lower [OF pos] hi have "(2::int) ^ (bit_length a - 1) < 2 ^ k" by linarith
  then have "bit_length a - 1 < k" by (rule power_less_imp_less_exp [rotated]) simp
  then show ?thesis by linarith
qed

lemma bit_length_shift: "0 < a \<Longrightarrow> bit_length (a * 2 ^ k) = bit_length a + k"
proof -
  assume pos: "0 < a"
  have Lpos: "0 < bit_length a" using pos by (simp add: bit_length_pos)
  have "2 ^ (bit_length a - 1) * 2 ^ k \<le> a * 2 ^ k"
    using bit_length_lower [OF pos] by simp
  then have lo: "2 ^ (bit_length a - 1 + k) \<le> a * 2 ^ k" by (simp only: power_add)
  have "a * 2 ^ k < 2 ^ bit_length a * 2 ^ k"
    using bit_length_upper [of a] pos by simp
  then have "a * 2 ^ k < 2 ^ (bit_length a + k)" by (simp only: power_add)
  moreover have "bit_length a + k = Suc (bit_length a - 1 + k)" using Lpos by simp
  ultimately have hi: "a * 2 ^ k < 2 ^ Suc (bit_length a - 1 + k)" by (simp only:)
  have "0 < a * 2 ^ k" using pos by simp
  from bit_length_unique [OF this lo hi] show ?thesis using Lpos by simp
qed

lemma round_half_even_shift:
  "round_half_even (a * 2 ^ k) (j + k) = round_half_even a j"
proof -
  have d: "(a * 2 ^ k) div 2 ^ (j + k) = a div 2 ^ j"
    by (simp add: power_add)
  have m: "(a * 2 ^ k) mod 2 ^ (j + k) = (a mod 2 ^ j) * 2 ^ k"
    by (simp add: power_add)
  have c1: "(2 ^ j * 2 ^ k < 2 * ((a mod 2 ^ j) * 2 ^ k)) = ((2::int) ^ j < 2 * (a mod 2 ^ j))"
    by (simp add: mult.assoc [symmetric])
  have c2: "(2 * ((a mod 2 ^ j) * 2 ^ k) = 2 ^ j * 2 ^ k) = (2 * (a mod 2 ^ j) = (2::int) ^ j)"
    by (simp add: mult.assoc [symmetric])
  show ?thesis
    unfolding round_half_even_def Let_def d m
    by (simp only: power_add c1 c2)
qed

lemma round_half_even_exact: "round_half_even (b * 2 ^ j) j = b"
  using round_half_even_shift [of b j 0] by (simp add: round_half_even_def)

lemma round_to_double_scale: "round_to_double (m * 2 ^ k) (e - int k) = round_to_double m e"
proof (cases "m = 0")
  case True
  then show ?thesis by (simp add: round_to_double_def)
next
  case False
  define a where "a = \<bar>m\<bar>"
  define q where "q = max (e + int (bit_length a) - 53) (- 1074)"
  have pos: "0 < a" using False by (simp add: a_def)
  have abs: "\<bar>m * 2 ^ k\<bar> = a * 2 ^ k" by (simp add: a_def abs_mult)
  have nz: "m * 2 ^ k \<noteq> 0" using False by simp
  have neg: "(m * 2 ^ k < 0) = (m < 0)" by (simp add: mult_less_0_iff)
  have q': "max (e - int k + int (bit_length (a * 2 ^ k)) - 53) (- 1074) = q"
    by (simp add: bit_length_shift [OF pos] q_def)
  have n: "(if q \<le> e - int k then a * 2 ^ k * 2 ^ nat (e - int k - q)
            else round_half_even (a * 2 ^ k) (nat (q - (e - int k))))
         = (if q \<le> e then a * 2 ^ nat (e - q) else round_half_even a (nat (q - e)))"
  proof (cases "q \<le> e - int k")
    case True
    then have qe: "q \<le> e" by linarith
    from True have "nat (e - q) = k + nat (e - int k - q)" by linarith
    then have "a * 2 ^ k * 2 ^ nat (e - int k - q) = a * 2 ^ nat (e - q)"
      by (simp add: power_add)
    then show ?thesis by (simp only: True qe if_True)
  next
    case F: False
    show ?thesis
    proof (cases "q \<le> e")
      case True
      then have k: "k = nat (e - q) + nat (q - (e - int k))" using F by linarith
      have "a * 2 ^ k = a * 2 ^ nat (e - q) * 2 ^ nat (q - (e - int k))"
        by (subst k) (simp add: power_add)
      then have "round_half_even (a * 2 ^ k) (nat (q - (e - int k))) = a * 2 ^ nat (e - q)"
        by (simp only: round_half_even_exact)
      then show ?thesis using F True by simp
    next
      case G: False
      then have "nat (q - (e - int k)) = nat (q - e) + k" by linarith
      then have "round_half_even (a * 2 ^ k) (nat (q - (e - int k))) =
                 round_half_even a (nat (q - e))"
        by (simp only: round_half_even_shift)
      then show ?thesis using F G by simp
    qed
  qed
  show ?thesis
    unfolding round_to_double_def Let_def abs neg q' n
    unfolding a_def [symmetric] q_def [symmetric]
    using False nz by (simp only: if_False simp_thms)
qed

lemma round_to_double_exact:
  "is_double (Finite m e) \<Longrightarrow> round_to_double m e = Finite m e"
proof (cases "m = 0")
  case True
  then show "is_double (Finite m e) \<Longrightarrow> ?thesis"
    by (simp add: round_to_double_def is_double_def)
next
  case False
  assume d: "is_double (Finite m e)"
  define a where "a = \<bar>m\<bar>"
  have pos: "0 < a" using False by (simp add: a_def)
  have hi: "a < 2 ^ 53" and elo: "- 1074 \<le> e" and ehi: "e \<le> 971"
    and c: "2 ^ 52 \<le> a \<or> e = - 1074"
    using d by (simp_all add: is_double_def a_def)
  have q: "max (e + int (bit_length a) - 53) (- 1074) = e"
  proof (cases "2 ^ 52 \<le> a")
    case True
    have "bit_length a = Suc 52"
      by (rule bit_length_unique [OF pos]) (use True hi in simp_all)
    then show ?thesis using elo by simp
  next
    case F: False
    with c have e: "e = - 1074" by simp
    have "bit_length a \<le> 53" by (rule bit_length_le) (use pos hi in simp_all)
    then show ?thesis by (simp add: e)
  qed
  have m: "(if m < 0 then - a else a) = m" by (simp add: a_def)
  have ne: "a \<noteq> 2 ^ 53" using hi by simp
  have "round_to_double m e =
        (let q = e; n = a * 2 ^ nat (e - q);
             n' = (if n = 2 ^ 53 then 2 ^ 52 else n);
             q' = (if n = 2 ^ 53 then q + 1 else q)
         in if 971 < q' then (if m < 0 then NegInf else PosInf)
            else if n' = 0 then Finite 0 (- 1074)
            else Finite (if m < 0 then - n' else n') q')"
    unfolding round_to_double_def Let_def a_def [symmetric] q
    using False by (simp only: if_False simp_thms order_refl if_True)
  then have "round_to_double m e = Finite (if m < 0 then - a else a) e"
    using ne ehi pos by (simp add: Let_def)
  then show ?thesis by (simp only: m)
qed

lemma float_add_zero:
  "is_double (Finite m e) \<Longrightarrow> float_add (Finite 0 (- 1074)) (Finite m e) = Finite m e"
proof -
  assume d: "is_double (Finite m e)"
  then have elo: "- 1074 \<le> e" by (simp add: is_double_def)
  then have "float_add (Finite 0 (- 1074)) (Finite m e) =
             round_to_double (m * 2 ^ nat (e + 1074)) (e - int (nat (e + 1074)))"
    by (simp add: Let_def min_def)
  also have "\<dots> = round_to_double m e" by (rule round_to_double_scale)
  also have "\<dots> = Finite m e" using d by (rule round_to_double_exact)
  finally show ?thesis .
qed

lemma bit_length_ge: "2 ^ k \<le> a \<Longrightarrow> k < bit_length a"
proof (induction k arbitrary: a)
  case 0
  then show ?case by (simp add: bit_length.simps [of a])
next
  case (Suc k)
  have "(0::int) < 2 ^ Suc k" by simp
  with Suc.prems have pos: "0 < a" by linarith
  from Suc.prems have "2 ^ k \<le> a div 2" by simp
  from Suc.IH [OF this] show ?case
    using pos by (simp add: bit_length.simps [of a])
qed

lemma round_half_even_up:
  assumes d: "a div 2 ^ k = c" and r: "2 ^ k \<le> 2 * (a mod 2 ^ k)" and o: "odd c"
  shows "round_half_even a k = c + 1"
proof -
  have "2 ^ k < 2 * (a mod 2 ^ k) \<or> 2 * (a mod 2 ^ k) = (2::int) ^ k"
    using r by linarith
  then show ?thesis using o by (auto simp add: round_half_even_def Let_def d)
qed

lemma round_half_even_down:
  assumes d: "a div 2 ^ k = c" and r: "2 * (a mod 2 ^ k) < 2 ^ k"
  shows "round_half_even a k = c"
  using r by (simp add: round_half_even_def Let_def d)

lemma int_div_eq: "0 < d \<Longrightarrow> c * d \<le> a \<Longrightarrow> a < (c + 1) * d \<Longrightarrow> a div d = (c::int)"
proof -
  assume d: "0 < d" and lo: "c * d \<le> a" and hi: "a < (c + 1) * d"
  have "c \<le> a div d" using d lo by (rule int_le_div)
  moreover have "a div d < c + 1" using d hi by (rule int_div_less)
  ultimately show ?thesis by linarith
qed

lemma int_mod_eq: "0 < d \<Longrightarrow> c * d \<le> a \<Longrightarrow> a < (c + 1) * d \<Longrightarrow> a mod d = a - c * (d::int)"
proof -
  assume d: "0 < d" and lo: "c * d \<le> a" and hi: "a < (c + 1) * d"
  have "a div d = c" using d lo hi by (rule int_div_eq)
  moreover have "a = (a div d) * d + a mod d" by simp
  ultimately show ?thesis by simp
qed

text \<open>The integers at or above \<open>2 ^ 1024 - 2 ^ 970\<close> round to no finite float.\<close>

lemma round_int_overflow:
  assumes "2 ^ 1024 - 2 ^ 970 \<le> \<bar>i\<bar>"
  shows "round_to_double i 0 = (if i < 0 then NegInf else PosInf)"
proof -
  define a where "a = \<bar>i\<bar>"
  define d :: int where "d = 2 ^ 971"
  have dh: "d = 2 * 2 ^ 970" by (simp add: d_def)
  have big: "(2::int) ^ 1024 = 2 ^ 53 * d" by (simp add: d_def)
  have dpos: "0 < d" by (simp add: d_def)
  have hpos: "(0::int) < 2 ^ 970" by simp
  have nz: "i \<noteq> 0" using assms hpos big dpos dh by (simp add: d_def) 
  have ge: "2 ^ 53 * d - 2 ^ 970 \<le> a" using assms by (simp only: a_def big)
  have pos: "0 < a" using nz by (simp add: a_def)
  show ?thesis
  proof (cases "2 ^ 1024 \<le> a")
    case True
    then have "1024 < bit_length a" by (rule bit_length_ge)
    then have q: "971 < max (0 + int (bit_length a) - 53) (- 1074)" by simp
    show ?thesis using nz q
      unfolding round_to_double_def Let_def a_def [symmetric]
      by (simp del: max.absorb1 max.absorb2 max.absorb3 max.absorb4 max_less_iff_conj)
  next
    case False
    then have lt: "a < 2 ^ 53 * d" by (simp only: big not_le)
    have lo: "(2 ^ 53 - 1) * d \<le> a" using ge dh hpos by (simp add: algebra_simps)
    have hi: "a < (2 ^ 53 - 1 + 1) * d" using lt by simp
    have "(2::int) ^ 1023 \<le> a" using lo by (simp add: d_def)
    moreover have "a < 2 ^ Suc 1023" using False by simp
    ultimately have L: "bit_length a = Suc 1023" using pos by (intro bit_length_unique)
    have dv: "a div 2 ^ 971 = 2 ^ 53 - 1"
      using int_div_eq [OF dpos lo hi] by (simp only: d_def)
    have md: "a mod 2 ^ 971 = a - (2 ^ 53 - 1) * d"
      using int_mod_eq [OF dpos lo hi] by (simp only: d_def)
    have "(2::int) ^ 971 \<le> 2 * (a mod 2 ^ 971)"
      unfolding md using ge dh by (simp add: algebra_simps d_def)
    moreover have "odd ((2::int) ^ 53 - 1)" by simp
    ultimately have n: "round_half_even a 971 = 2 ^ 53 - 1 + 1"
      using dv by (intro round_half_even_up)
    have n': "round_half_even a 971 = 9007199254740992" using n by simp
    show ?thesis using nz
      unfolding round_to_double_def Let_def a_def [symmetric] L
      by (simp add: n')
  qed
qed

text \<open>The integers below \<open>2 ^ 1024 - 2 ^ 970\<close> round to a finite float.\<close>

lemma round_int_finite:
  assumes "\<bar>i\<bar> < 2 ^ 1024 - 2 ^ 970"
  shows "\<exists>m e. round_to_double i 0 = Finite m e"
proof (cases "i = 0")
  case True
  then show ?thesis by (simp add: round_to_double_def)
next
  case nz: False
  define a where "a = \<bar>i\<bar>"
  define d :: int where "d = 2 ^ 971"
  define q where "q = max (0 + int (bit_length a) - 53) (- 1074)"
  define n where "n = (if q \<le> 0 then a * 2 ^ nat (0 - q) else round_half_even a (nat (q - 0)))"
  have dh: "d = 2 * 2 ^ 970" by (simp add: d_def)
  have big: "(2::int) ^ 1024 = 2 ^ 53 * d" by (simp add: d_def)
  have dpos: "0 < d" by (simp add: d_def)
  have pos: "0 < a" using nz by (simp add: a_def)
  have lt: "a < 2 ^ 53 * d - 2 ^ 970" using assms by (simp only: a_def big)
  have "a < 2 ^ 1024" using assms by (simp add: a_def)
  then have L: "bit_length a \<le> 1024" using pos by (intro bit_length_le) simp_all
  then have q971: "q \<le> 971" by (simp add: q_def)
  have r: "round_to_double i 0 =
          (let n' = (if n = 2 ^ 53 then 2 ^ 52 else n);
               q' = (if n = 2 ^ 53 then q + 1 else q)
           in if 971 < q' then (if i < 0 then NegInf else PosInf)
              else if n' = 0 then Finite 0 (- 1074)
              else Finite (if i < 0 then - n' else n') q')"
    unfolding round_to_double_def a_def q_def n_def Let_def
    using nz by (simp only: if_False simp_thms)
  have top: "n \<noteq> 2 ^ 53" if "q = 971"
  proof -
    have qpos: "\<not> q \<le> 0" using that by simp
    have n: "n = round_half_even a 971" using that by (simp add: n_def)
    have "a < (2 ^ 53 - 1 + 1) * d" using lt by simp
    then have dvlt: "a div d < 2 ^ 53 - 1 + 1" using dpos by (intro int_div_less)
    show ?thesis
    proof (cases "a div d = 2 ^ 53 - 1")
      case True
      have "a = (a div d) * d + a mod d" by simp
      then have "a mod d = a - (2 ^ 53 - 1) * d" by (simp only: True)
      then have "2 * (a mod d) < d" using lt dh by (simp add: algebra_simps)
      then have "2 * (a mod 2 ^ 971) < (2::int) ^ 971" by (simp only: d_def)
      moreover have "a div 2 ^ 971 = 2 ^ 53 - 1" using True by (simp only: d_def)
      ultimately have "round_half_even a 971 = 2 ^ 53 - 1" by (intro round_half_even_down)
      then show ?thesis by (simp add: n)
    next
      case False
      with dvlt have "a div d < 2 ^ 53 - 1" by linarith
      then have "a div 2 ^ 971 + 1 < (2::int) ^ 53" by (simp add: d_def)
      moreover have "round_half_even a 971 \<le> a div 2 ^ 971 + 1"
        using round_half_even_bounds [of a 971] pos by simp
      ultimately show ?thesis by (simp add: n)
    qed
  qed
  have "\<not> 971 < (if n = 2 ^ 53 then q + 1 else q)"
    using top q971 by (cases "q = 971") auto
  then show ?thesis
    by (simp add: r Let_def)
qed

lemma int_to_float_Inr_iff:
  "(\<exists>x. int_to_float i = Inr x) \<longleftrightarrow> \<bar>i\<bar> < 2 ^ 1024 - 2 ^ 970"
proof
  assume "\<exists>x. int_to_float i = Inr x"
  show "\<bar>i\<bar> < 2 ^ 1024 - 2 ^ 970"
  proof (rule ccontr)
    assume "\<not> \<bar>i\<bar> < 2 ^ 1024 - 2 ^ 970"
    then have "2 ^ 1024 - 2 ^ 970 \<le> \<bar>i\<bar>" by (simp only: not_less)
    from round_int_overflow [OF this] have "int_to_float i = Inl OverflowError"
      by (simp add: int_to_float_def)
    with \<open>\<exists>x. int_to_float i = Inr x\<close> show False by simp
  qed
next
  assume "\<bar>i\<bar> < 2 ^ 1024 - 2 ^ 970"
  from round_int_finite [OF this] obtain m e where "round_to_double i 0 = Finite m e"
    by blast
  then show "\<exists>x. int_to_float i = Inr x" by (simp add: int_to_float_def)
qed

lemma float_add_is_double: "is_double (float_add x y)"
  by (cases x; cases y)
     (simp_all add: round_to_double_is_double Let_def, simp_all add: is_double_def)

lemma float_mul_is_double: "is_double (float_mul x y)"
  by (cases x; cases y)
     (simp_all add: round_to_double_is_double Let_def, simp_all add: is_double_def)

lemma int_to_float_is_double: "int_to_float i = Inr x \<Longrightarrow> is_double x"
  using round_to_double_is_double [of i 0]
  by (auto simp add: int_to_float_def split: pyfloat.splits)

lemma int_to_float_zero: "int_to_float 0 = Inr (Finite 0 (- 1074))"
  by (simp add: int_to_float_def round_to_double_def)

lemma py_add_zero_float:
  "is_double (Finite m e) \<Longrightarrow>
     py_add (PInt 0) (PFloat (Finite m e)) = Inr (PFloat (Finite m e))"
  by (simp add: int_to_float_zero float_add_zero del: float_add.simps)

subsection \<open>Order of additions\<close>

lemma setattr_setattr [simp]: "setattr (setattr w r a v) r a v' = setattr w r a v'"
  by (simp add: setattr_def)

lemma add_add_int:
  "heap w self ''value'' = Some (PInt v) \<Longrightarrow>
     and_then (add w self (PInt a)) (\<lambda>(r, w1). add w1 self (PInt b)) =
       Inr (PInt (v + a + b), setattr w self ''value'' (PInt (v + a + b)))"
  by (simp add: add_eq add_eq [of _ _ "PInt (v + a)"])

text \<open>
  C7, as the specification states it: for every stored value and all numeric \<open>a\<close> and
  \<open>b\<close>, \<^verbatim>\<open>add(a); add(b)\<close> leaves the same value as \<^verbatim>\<open>add(b); add(a)\<close>. Float addition
  rounds, so the order matters: on a calculator that holds the integer \<open>10 ^ 16\<close> (after
  \<^verbatim>\<open>add(10**16)\<close>), \<^verbatim>\<open>add(1.0); add(-1e16)\<close> leaves \<^verbatim>\<open>0.0\<close>, because
  \<^verbatim>\<open>10**16 + 1.0\<close> rounds to \<^verbatim>\<open>1e16\<close>, and \<^verbatim>\<open>add(-1e16); add(1.0)\<close> leaves \<^verbatim>\<open>1.0\<close>.
  Here \<^verbatim>\<open>1.0\<close> is \<open>Finite (2 ^ 52) (- 52)\<close>, with \<open>2 ^ 52 = 4503599627370496\<close>, and
  \<^verbatim>\<open>1e16\<close> is \<open>Finite 5000000000000000 1\<close>.
\<close>

lemma float_literals:
  "int_to_float 1 = Inr (Finite 4503599627370496 (- 52))"
  "int_to_float (10 ^ 16) = Inr (Finite 5000000000000000 1)"
  by code_simp+

lemma fold_add_one_first:
  "py_fold (PInt 0)
     [Add (PInt (10 ^ 16)), Add (PFloat (Finite 4503599627370496 (- 52))),
      Add (PFloat (Finite (- 5000000000000000) 1))]
   = Inr (PFloat (Finite 0 (- 1074)))"
  by code_simp

lemma fold_add_one_last:
  "py_fold (PInt 0)
     [Add (PInt (10 ^ 16)), Add (PFloat (Finite (- 5000000000000000) 1)),
      Add (PFloat (Finite 4503599627370496 (- 52)))]
   = Inr (PFloat (Finite 4503599627370496 (- 52)))"
  by code_simp

theorem add_order_counterexample:
  "map_sum id (\<lambda>w'. heap w' (fst (Calculator start_world)) ''value'')
     (run_ops (snd (Calculator start_world)) (fst (Calculator start_world))
        [Add (PInt (10 ^ 16)), Add (PFloat (Finite 4503599627370496 (- 52))),
         Add (PFloat (Finite (- 5000000000000000) 1))])
     = Inr (Some (PFloat (Finite 0 (- 1074))))
   \<and> map_sum id (\<lambda>w'. heap w' (fst (Calculator start_world)) ''value'')
     (run_ops (snd (Calculator start_world)) (fst (Calculator start_world))
        [Add (PInt (10 ^ 16)), Add (PFloat (Finite (- 5000000000000000) 1)),
         Add (PFloat (Finite 4503599627370496 (- 52)))])
     = Inr (Some (PFloat (Finite 4503599627370496 (- 52))))
   \<and> PFloat (Finite 0 (- 1074)) \<noteq> PFloat (Finite 4503599627370496 (- 52))
   \<and> is_double (Finite 4503599627370496 (- 52))
   \<and> is_double (Finite (- 5000000000000000) 1)"
  by (simp only: run_ops_py_fold [OF Calculator_value] fold_add_one_first fold_add_one_last)
     (simp add: is_double_def)

text \<open>
  C7, amended. For every integer stored value \<open>v\<close> and all integers \<open>a\<close> and \<open>b\<close>,
  \<^verbatim>\<open>add(a); add(b)\<close> and \<^verbatim>\<open>add(b); add(a)\<close> end in the same state with the same result:
  the value \<open>v + a + b\<close>.
\<close>

theorem add_commutes_on_integers:
  assumes "heap w self ''value'' = Some (PInt v)"
  shows "and_then (add w self (PInt a)) (\<lambda>(r, w1). add w1 self (PInt b)) =
         and_then (add w self (PInt b)) (\<lambda>(r, w1). add w1 self (PInt a))
       \<and> and_then (add w self (PInt a)) (\<lambda>(r, w1). add w1 self (PInt b)) =
         Inr (PInt (v + a + b), setattr w self ''value'' (PInt (v + a + b)))"
proof -
  have ab: "and_then (add w self (PInt a)) (\<lambda>(r, w1). add w1 self (PInt b)) =
              Inr (PInt (v + a + b), setattr w self ''value'' (PInt (v + a + b)))"
    by (rule add_add_int [OF assms])
  have "v + b + a = v + a + b" by simp
  with add_add_int [OF assms, of b a]
  have ba: "and_then (add w self (PInt b)) (\<lambda>(r, w1). add w1 self (PInt a)) =
              Inr (PInt (v + a + b), setattr w self ''value'' (PInt (v + a + b)))"
    by (simp only:)
  show ?thesis
    by (intro conjI) (simp only: ab ba, rule ab)
qed

theorem add_commutes_on_integers_witness:
  "and_then (add (snd (Calculator start_world)) (fst (Calculator start_world)) (PInt 2))
     (\<lambda>(r, w1). add w1 (fst (Calculator start_world)) (PInt 3)) =
   and_then (add (snd (Calculator start_world)) (fst (Calculator start_world)) (PInt 3))
     (\<lambda>(r, w1). add w1 (fst (Calculator start_world)) (PInt 2))
   \<and> and_then (add (snd (Calculator start_world)) (fst (Calculator start_world)) (PInt 2))
     (\<lambda>(r, w1). add w1 (fst (Calculator start_world)) (PInt 3)) =
   Inr (PInt 5, setattr (snd (Calculator start_world)) (fst (Calculator start_world)) ''value''
                  (PInt 5))"
proof -
  have e: "(0::int) + 2 + 3 = 5" by simp
  show ?thesis
    using add_commutes_on_integers [OF Calculator_value, of start_world 2 3]
    unfolding e .
qed

subsection \<open>Multiplying by zero\<close>

text \<open>
  C8, as the specification states it: \<^verbatim>\<open>multiply(0)\<close> sets the value to 0 whatever the
  state. An infinite float times zero is \<^verbatim>\<open>nan\<close>: after \<^verbatim>\<open>add(float('inf'))\<close> the call
  \<^verbatim>\<open>multiply(0)\<close> stores and returns \<^verbatim>\<open>nan\<close>. Finite arguments reach that state too:
  after \<^verbatim>\<open>add(2.0**1023)\<close> and \<^verbatim>\<open>multiply(2)\<close> the value is \<^verbatim>\<open>inf\<close>, and
  \<^verbatim>\<open>multiply(0)\<close> makes it \<^verbatim>\<open>nan\<close> (\<^verbatim>\<open>2.0**1023\<close> is \<open>Finite (2 ^ 52) 971\<close>).
\<close>

lemma fold_inf_times_zero:
  "py_fold (PInt 0) [Add (PFloat PosInf), Multiply (PInt 0)] = Inr (PFloat NaN)"
  by code_simp

lemma fold_overflow_times_zero:
  "py_fold (PFloat (Finite 4503599627370496 971)) [Multiply (PInt 2)] = Inr (PFloat PosInf)"
  "py_fold (PFloat (Finite 4503599627370496 971)) [Multiply (PInt 2), Multiply (PInt 0)]
     = Inr (PFloat NaN)"
  by code_simp+

theorem multiply_zero_counterexample:
  "map_sum id (\<lambda>w'. heap w' (fst (Calculator start_world)) ''value'')
     (run_ops (snd (Calculator start_world)) (fst (Calculator start_world))
        [Add (PFloat PosInf), Multiply (PInt 0)])
     = Inr (Some (PFloat NaN))
   \<and> map_sum id fst
       (multiply (setattr start_world 0 ''value'' (PFloat PosInf)) 0 (PInt 0))
     = Inr (PFloat NaN)
   \<and> map_sum id (\<lambda>w'. heap w' (fst (Calculator start_world)) ''value'')
     (run_ops (snd (Calculator start_world)) (fst (Calculator start_world))
        [Add (PFloat (Finite 4503599627370496 971)), Multiply (PInt 2)])
     = Inr (Some (PFloat PosInf))
   \<and> map_sum id (\<lambda>w'. heap w' (fst (Calculator start_world)) ''value'')
     (run_ops (snd (Calculator start_world)) (fst (Calculator start_world))
        [Add (PFloat (Finite 4503599627370496 971)), Multiply (PInt 2), Multiply (PInt 0)])
     = Inr (Some (PFloat NaN))
   \<and> is_double (Finite 4503599627370496 971)"
proof -
  have m: "multiply (setattr start_world 0 ''value'' (PFloat PosInf)) 0 (PInt 0) =
          Inr (PFloat NaN, setattr start_world 0 ''value'' (PFloat NaN))"
    by (simp add: multiply_eq [of _ _ "PFloat PosInf"] int_to_float_zero float_sign_def)
  have r: "map_sum id (\<lambda>w'. heap w' (fst (Calculator start_world)) ''value'')
             (run_ops (snd (Calculator start_world)) (fst (Calculator start_world))
                [Add (PFloat PosInf), Multiply (PInt 0)])
           = Inr (Some (PFloat NaN))"
    by (simp only: run_ops_py_fold [OF Calculator_value] fold_inf_times_zero) simp
  have d: "is_double (Finite 4503599627370496 971)"
    by (simp add: is_double_def)
  have f1: "py_fold (PInt 0) [Add (PFloat (Finite 4503599627370496 971)), Multiply (PInt 2)]
              = Inr (PFloat PosInf)"
    by (simp only: py_fold.simps(2) py_add_zero_float [OF d] and_then_Inr
        fold_overflow_times_zero)
  have f2: "py_fold (PInt 0)
              [Add (PFloat (Finite 4503599627370496 971)), Multiply (PInt 2), Multiply (PInt 0)]
              = Inr (PFloat NaN)"
    by (simp only: py_fold.simps(2) py_add_zero_float [OF d] and_then_Inr
        fold_overflow_times_zero)
  have r1: "map_sum id (\<lambda>w'. heap w' (fst (Calculator start_world)) ''value'')
     (run_ops (snd (Calculator start_world)) (fst (Calculator start_world))
        [Add (PFloat (Finite 4503599627370496 971)), Multiply (PInt 2)])
     = Inr (Some (PFloat PosInf))"
    by (simp only: run_ops_py_fold [OF Calculator_value] f1) simp
  have r2: "map_sum id (\<lambda>w'. heap w' (fst (Calculator start_world)) ''value'')
     (run_ops (snd (Calculator start_world)) (fst (Calculator start_world))
        [Add (PFloat (Finite 4503599627370496 971)), Multiply (PInt 2), Multiply (PInt 0)])
     = Inr (Some (PFloat NaN))"
    by (simp only: run_ops_py_fold [OF Calculator_value] f2) simp
  show ?thesis
    by (intro conjI) (rule r, simp add: m, rule r1, rule r2, rule d)
qed

text \<open>
  C8, amended. For every integer and every finite float stored value, \<^verbatim>\<open>multiply(0)\<close>
  sets the value to zero and returns it: the integer 0 for an integer, the float zero for
  a float. For an infinite or \<^verbatim>\<open>nan\<close> stored value it stores and returns \<^verbatim>\<open>nan\<close>.
\<close>

theorem multiply_zero:
  assumes "heap w self ''value'' = Some v"
  shows "(\<forall>a. v = PInt a \<longrightarrow>
            multiply w self (PInt 0) = Inr (PInt 0, setattr w self ''value'' (PInt 0)))
       \<and> (\<forall>m e. v = PFloat (Finite m e) \<longrightarrow>
            multiply w self (PInt 0) =
              Inr (PFloat (Finite 0 (- 1074)), setattr w self ''value'' (PFloat (Finite 0 (- 1074)))))
       \<and> (v = PFloat PosInf \<or> v = PFloat NegInf \<or> v = PFloat NaN \<longrightarrow>
            multiply w self (PInt 0) = Inr (PFloat NaN, setattr w self ''value'' (PFloat NaN)))"
proof -
  have z: "int_to_float 0 = Inr (Finite 0 (- 1074))"
    by (simp add: int_to_float_def round_to_double_def)
  have r: "round_to_double 0 e = Finite 0 (- 1074)" for e
    by (simp add: round_to_double_def)
  show ?thesis
    using assms by (auto simp add: multiply_eq z r float_sign_def)
qed

theorem multiply_zero_witness:
  "multiply (setattr start_world 0 ''value'' (PInt 7)) 0 (PInt 0) =
     Inr (PInt 0, setattr start_world 0 ''value'' (PInt 0))
   \<and> multiply (setattr start_world 0 ''value'' (PFloat (Finite 4503599627370496 (- 52)))) 0 (PInt 0) =
     Inr (PFloat (Finite 0 (- 1074)), setattr start_world 0 ''value'' (PFloat (Finite 0 (- 1074))))"
proof -
  have h1: "heap (setattr start_world 0 ''value'' (PInt 7)) 0 ''value'' = Some (PInt 7)"
    by simp
  have h2: "heap (setattr start_world 0 ''value'' (PFloat (Finite 4503599627370496 (- 52)))) 0 ''value''
              = Some (PFloat (Finite 4503599627370496 (- 52)))"
    by simp
  show ?thesis
    using multiply_zero [OF h1] multiply_zero [OF h2] by simp
qed

subsection \<open>Exceptions\<close>

lemma int_to_float_Inl_iff:
  "(\<exists>e. int_to_float i = Inl e) \<longleftrightarrow> 2 ^ 1024 - 2 ^ 970 \<le> \<bar>i\<bar>"
proof -
  have "(\<exists>e. int_to_float i = Inl e) \<longleftrightarrow> \<not> (\<exists>x. int_to_float i = Inr x)"
    by (cases "int_to_float i") simp_all
  then show ?thesis by (simp only: int_to_float_Inr_iff not_less)
qed

lemma int_to_float_overflow:
  "2 ^ 1024 - 2 ^ 970 \<le> \<bar>i\<bar> \<Longrightarrow> int_to_float i = Inl OverflowError"
  by (simp add: int_to_float_def round_int_overflow)

lemma int_to_float_error: "int_to_float i = Inl e \<Longrightarrow> e = OverflowError"
  by (auto simp add: int_to_float_def split: pyfloat.splits)

lemma py_add_numeric_error:
  "is_numeric v \<Longrightarrow> is_numeric n \<Longrightarrow> py_add v n = Inl e \<Longrightarrow> e = OverflowError"
  by (cases v; cases n)
     (auto simp add: is_numeric_def and_then_def split: sum.splits dest: int_to_float_error)

lemma py_mul_numeric_error:
  "is_numeric v \<Longrightarrow> is_numeric n \<Longrightarrow> py_mul v n = Inl e \<Longrightarrow> e = OverflowError"
  by (cases v; cases n)
     (auto simp add: is_numeric_def and_then_def split: sum.splits dest: int_to_float_error)

lemma py_add_type_error:
  "is_numeric v \<Longrightarrow> \<not> is_numeric n \<Longrightarrow> py_add v n = Inl TypeError"
  by (cases v; cases n) (simp_all add: is_numeric_def)

lemma method_error:
  "heap w self ''value'' = Some v \<Longrightarrow>
     (add w self n = Inl e \<longleftrightarrow> py_add v n = Inl e) \<and>
     (multiply w self n = Inl e \<longleftrightarrow> py_mul v n = Inl e)"
  by (simp add: add_eq multiply_eq and_then_def split: sum.splits)

lemma mixed_error:
  "(\<exists>e. py_add (PInt a) (PFloat y) = Inl e) \<longleftrightarrow> 2 ^ 1024 - 2 ^ 970 \<le> \<bar>a\<bar>"
  "(\<exists>e. py_mul (PInt a) (PFloat y) = Inl e) \<longleftrightarrow> 2 ^ 1024 - 2 ^ 970 \<le> \<bar>a\<bar>"
  "(\<exists>e. py_add (PFloat y) (PInt a) = Inl e) \<longleftrightarrow> 2 ^ 1024 - 2 ^ 970 \<le> \<bar>a\<bar>"
  "(\<exists>e. py_mul (PFloat y) (PInt a) = Inl e) \<longleftrightarrow> 2 ^ 1024 - 2 ^ 970 \<le> \<bar>a\<bar>"
  using int_to_float_Inl_iff [of a]
  by (cases "int_to_float a"; simp del: float_add.simps float_mul.simps)+

text \<open>
  C4, as the specification states it: every non-numeric \<open>n\<close> makes \<^verbatim>\<open>add(n)\<close> and
  \<^verbatim>\<open>multiply(n)\<close> fail with a type mismatch, and no numeric \<open>n\<close> makes them fail. A string
  times an integer is a repetition: on a new calculator \<^verbatim>\<open>multiply("abc")\<close> raises nothing
  and stores the empty string. And an integer that is too large for a float cannot be
  added to one: after \<^verbatim>\<open>add(2**1024)\<close> the call \<^verbatim>\<open>add(1.5)\<close> raises
  \<^verbatim>\<open>OverflowError\<close> (\<^verbatim>\<open>1.5\<close> is \<open>Finite (3 * 2 ^ 51) (- 52)\<close>).
\<close>

theorem type_mismatch_counterexample:
  "multiply (snd (Calculator start_world)) (fst (Calculator start_world)) (PStr ''abc'')
     = Inr (PStr [],
            setattr (snd (Calculator start_world)) (fst (Calculator start_world)) ''value''
              (PStr []))
   \<and> run_ops (snd (Calculator start_world)) (fst (Calculator start_world))
        [Add (PInt (2 ^ 1024)), Add (PFloat (Finite 6755399441055744 (- 52)))]
     = Inl OverflowError
   \<and> is_double (Finite 6755399441055744 (- 52))"
proof -
  have m: "multiply (snd (Calculator start_world)) (fst (Calculator start_world)) (PStr ''abc'')
     = Inr (PStr [],
            setattr (snd (Calculator start_world)) (fst (Calculator start_world)) ''value''
              (PStr []))"
    by (simp add: multiply_eq [OF Calculator_value] str_repeat_def)
  have a1: "add (snd (Calculator start_world)) (fst (Calculator start_world)) (PInt (2 ^ 1024))
     = Inr (PInt (2 ^ 1024),
            setattr (snd (Calculator start_world)) (fst (Calculator start_world)) ''value''
              (PInt (2 ^ 1024)))"
    by (simp add: add_eq [OF Calculator_value])
  have "int_to_float (2 ^ 1024) = Inl OverflowError"
    by (rule int_to_float_overflow) simp
  then have a2: "add (setattr (snd (Calculator start_world)) (fst (Calculator start_world))
                    ''value'' (PInt (2 ^ 1024)))
                  (fst (Calculator start_world)) (PFloat (Finite 6755399441055744 (- 52)))
     = Inl OverflowError"
    by (simp add: add_eq [of _ _ "PInt (2 ^ 1024)"])
  have r: "run_ops (snd (Calculator start_world)) (fst (Calculator start_world))
        [Add (PInt (2 ^ 1024)), Add (PFloat (Finite 6755399441055744 (- 52)))]
     = Inl OverflowError"
    by (simp only: run_ops.simps call.simps a1 a2 and_then_Inr and_then_Inl prod.case)
  have d: "is_double (Finite 6755399441055744 (- 52))"
    by (simp add: is_double_def)
  show ?thesis
    by (intro conjI) (rule m, rule r, rule d)
qed

text \<open>
  C4, amended. On a numeric stored value, \<^verbatim>\<open>add(n)\<close> with \<open>n\<close> \<^verbatim>\<open>None\<close> or a string
  raises \<^verbatim>\<open>TypeError\<close>; \<^verbatim>\<open>multiply(None)\<close> raises \<^verbatim>\<open>TypeError\<close> on every stored value
  and \<^verbatim>\<open>multiply(s)\<close> with a string \<open>s\<close> raises it on a float, but on the integer 0 it
  stores and returns the empty string. No method catches an exception: a caller that
  handles none ends at the first call that raises, and the process with status 1. With
  two integers or two floats neither method raises; with any two numbers the only
  exception either can raise is \<^verbatim>\<open>OverflowError\<close>, and with an integer and a float
  either raises it exactly when the magnitude of the integer is \<open>2 ^ 1024 - 2 ^ 970\<close> or
  more.
\<close>

theorem exceptions_of_add_and_multiply:
  assumes "heap w self ''value'' = Some v"
  shows "(is_numeric v \<and> \<not> is_numeric n \<longrightarrow> add w self n = Inl TypeError)
       \<and> multiply w self PNone = Inl TypeError
       \<and> (\<forall>x s. v = PFloat x \<longrightarrow> multiply w self (PStr s) = Inl TypeError)
       \<and> (\<forall>s. v = PInt 0 \<longrightarrow>
            multiply w self (PStr s) = Inr (PStr [], setattr w self ''value'' (PStr [])))
       \<and> (\<forall>e. call w self x = Inl e \<longrightarrow>
            run_ops w self (x # xs) = Inl e \<and> exit_status (run_ops w self (x # xs)) = 1)
       \<and> (\<forall>a b. v = PInt a \<and> n = PInt b \<longrightarrow>
            add w self n = Inr (PInt (a + b), setattr w self ''value'' (PInt (a + b))) \<and>
            multiply w self n = Inr (PInt (a * b), setattr w self ''value'' (PInt (a * b))))
       \<and> (\<forall>a b. v = PFloat a \<and> n = PFloat b \<longrightarrow>
            add w self n =
              Inr (PFloat (float_add a b), setattr w self ''value'' (PFloat (float_add a b))) \<and>
            multiply w self n =
              Inr (PFloat (float_mul a b), setattr w self ''value'' (PFloat (float_mul a b))))
       \<and> (\<forall>e. is_numeric v \<and> is_numeric n \<and> (add w self n = Inl e \<or> multiply w self n = Inl e)
            \<longrightarrow> e = OverflowError)
       \<and> (\<forall>a y. (v = PInt a \<and> n = PFloat y) \<or> (v = PFloat y \<and> n = PInt a) \<longrightarrow>
            ((\<exists>e. add w self n = Inl e) \<longleftrightarrow> 2 ^ 1024 - 2 ^ 970 \<le> \<bar>a\<bar>) \<and>
            ((\<exists>e. multiply w self n = Inl e) \<longleftrightarrow> 2 ^ 1024 - 2 ^ 970 \<le> \<bar>a\<bar>))"
proof -
  have 1: "is_numeric v \<and> \<not> is_numeric n \<longrightarrow> add w self n = Inl TypeError"
    using method_error [OF assms] py_add_type_error by blast
  have 2: "multiply w self PNone = Inl TypeError"
    by (cases v) (simp_all add: multiply_eq [OF assms])
  have 3: "\<forall>x s. v = PFloat x \<longrightarrow> multiply w self (PStr s) = Inl TypeError"
    using assms by (simp add: multiply_eq)
  have 4: "\<forall>s. v = PInt 0 \<longrightarrow>
            multiply w self (PStr s) = Inr (PStr [], setattr w self ''value'' (PStr []))"
    using assms by (simp add: multiply_eq str_repeat_def)
  have 5: "\<forall>e. call w self x = Inl e \<longrightarrow>
            run_ops w self (x # xs) = Inl e \<and> exit_status (run_ops w self (x # xs)) = 1"
    by (simp add: exit_status_def)
  have 6: "\<forall>a b. v = PInt a \<and> n = PInt b \<longrightarrow>
            add w self n = Inr (PInt (a + b), setattr w self ''value'' (PInt (a + b))) \<and>
            multiply w self n = Inr (PInt (a * b), setattr w self ''value'' (PInt (a * b)))"
    using assms by (simp add: add_eq multiply_eq)
  have 7: "\<forall>a b. v = PFloat a \<and> n = PFloat b \<longrightarrow>
            add w self n =
              Inr (PFloat (float_add a b), setattr w self ''value'' (PFloat (float_add a b))) \<and>
            multiply w self n =
              Inr (PFloat (float_mul a b), setattr w self ''value'' (PFloat (float_mul a b)))"
    using assms by (simp add: add_eq multiply_eq)
  have 8: "\<forall>e. is_numeric v \<and> is_numeric n \<and>
              (add w self n = Inl e \<or> multiply w self n = Inl e) \<longrightarrow> e = OverflowError"
    using method_error [OF assms] py_add_numeric_error py_mul_numeric_error by blast
  have 9: "\<forall>a y. (v = PInt a \<and> n = PFloat y) \<or> (v = PFloat y \<and> n = PInt a) \<longrightarrow>
            ((\<exists>e. add w self n = Inl e) \<longleftrightarrow> 2 ^ 1024 - 2 ^ 970 \<le> \<bar>a\<bar>) \<and>
            ((\<exists>e. multiply w self n = Inl e) \<longleftrightarrow> 2 ^ 1024 - 2 ^ 970 \<le> \<bar>a\<bar>)"
  proof (intro allI impI)
    fix a y
    assume "(v = PInt a \<and> n = PFloat y) \<or> (v = PFloat y \<and> n = PInt a)"
    then show "((\<exists>e. add w self n = Inl e) \<longleftrightarrow> 2 ^ 1024 - 2 ^ 970 \<le> \<bar>a\<bar>) \<and>
               ((\<exists>e. multiply w self n = Inl e) \<longleftrightarrow> 2 ^ 1024 - 2 ^ 970 \<le> \<bar>a\<bar>)"
      using method_error [OF assms, of n] mixed_error [where a = a and y = y]
        by (elim disjE conjE) simp_all
  qed
  show ?thesis
    by (intro conjI) (rule 1, rule 2, rule 3, rule 4, rule 5, rule 6, rule 7, rule 8, rule 9)
qed

theorem exceptions_of_add_and_multiply_witness:
  "add (snd (Calculator start_world)) (fst (Calculator start_world)) (PStr ''abc'') = Inl TypeError
   \<and> multiply (snd (Calculator start_world)) (fst (Calculator start_world)) PNone = Inl TypeError
   \<and> run_ops (snd (Calculator start_world)) (fst (Calculator start_world))
       [Add (PStr ''abc''), Add (PInt 1)] = Inl TypeError
   \<and> exit_status (run_ops (snd (Calculator start_world)) (fst (Calculator start_world))
       [Add (PStr ''abc''), Add (PInt 1)]) = 1"
proof -
  note t = exceptions_of_add_and_multiply
    [OF Calculator_value, where n = "PStr ''abc''" and w1 = start_world
      and x = "Add (PStr ''abc'')" and xs = "[Add (PInt 1)]"]
  have n: "is_numeric (PInt 0) \<and> \<not> is_numeric (PStr ''abc'')"
    by (simp add: is_numeric_def)
  from t n have a: "add (snd (Calculator start_world)) (fst (Calculator start_world))
                      (PStr ''abc'') = Inl TypeError"
    by blast
  then have c: "call (snd (Calculator start_world)) (fst (Calculator start_world))
                  (Add (PStr ''abc'')) = Inl TypeError"
    by simp
  from t have m: "multiply (snd (Calculator start_world)) (fst (Calculator start_world)) PNone
                    = Inl TypeError"
    by blast
  from t c have r: "run_ops (snd (Calculator start_world)) (fst (Calculator start_world))
       [Add (PStr ''abc''), Add (PInt 1)] = Inl TypeError
     \<and> exit_status (run_ops (snd (Calculator start_world)) (fst (Calculator start_world))
       [Add (PStr ''abc''), Add (PInt 1)]) = 1"
    by blast
  show ?thesis
    using a m r by blast
qed

subsection \<open>The two operations on numbers\<close>

lemma int_to_float_value:
  "\<bar>i\<bar> < 2 ^ 1024 - 2 ^ 970 \<Longrightarrow> int_to_float i = Inr (round_to_double i 0)"
proof -
  assume "\<bar>i\<bar> < 2 ^ 1024 - 2 ^ 970"
  from round_int_finite [OF this] obtain m e where r: "round_to_double i 0 = Finite m e"
    by blast
  show ?thesis by (simp add: int_to_float_def r)
qed

lemma py_add_num:
  "is_numeric v \<Longrightarrow> is_numeric n \<Longrightarrow>
     py_add v n = (case num_plus v n of None \<Rightarrow> Inl OverflowError | Some r \<Rightarrow> Inr r)"
proof (cases v; cases n)
  fix a y assume "v = PInt a" "n = PFloat y"
  then show ?thesis
    by (cases "\<bar>a\<bar> < 2 ^ 1024 - 2 ^ 970")
       (simp_all add: int_to_float_value int_to_float_overflow del: float_add.simps)
next
  fix x b assume "v = PFloat x" "n = PInt b"
  then show ?thesis
    by (cases "\<bar>b\<bar> < 2 ^ 1024 - 2 ^ 970")
       (simp_all add: int_to_float_value int_to_float_overflow del: float_add.simps)
qed (simp_all add: is_numeric_def del: float_add.simps)

lemma py_mul_num:
  "is_numeric v \<Longrightarrow> is_numeric n \<Longrightarrow>
     py_mul v n = (case num_times v n of None \<Rightarrow> Inl OverflowError | Some r \<Rightarrow> Inr r)"
proof (cases v; cases n)
  fix a y assume "v = PInt a" "n = PFloat y"
  then show ?thesis
    by (cases "\<bar>a\<bar> < 2 ^ 1024 - 2 ^ 970")
       (simp_all add: int_to_float_value int_to_float_overflow del: float_mul.simps)
next
  fix x b assume "v = PFloat x" "n = PInt b"
  then show ?thesis
    by (cases "\<bar>b\<bar> < 2 ^ 1024 - 2 ^ 970")
       (simp_all add: int_to_float_value int_to_float_overflow del: float_mul.simps)
qed (simp_all add: is_numeric_def del: float_mul.simps)

lemma num_plus_numeric: "num_plus v n = Some r \<Longrightarrow> is_numeric r"
  by (cases v; cases n) (auto simp add: is_numeric_def simp del: float_add.simps split: if_splits)

lemma num_times_numeric: "num_times v n = Some r \<Longrightarrow> is_numeric r"
  by (cases v; cases n) (auto simp add: is_numeric_def simp del: float_mul.simps split: if_splits)

lemma run_ops_num_fold:
  "heap w self ''value'' = Some v \<Longrightarrow> is_numeric v \<Longrightarrow>
   list_all (\<lambda>x. is_numeric (op_arg x)) ys \<Longrightarrow>
     map_sum id (\<lambda>w'. heap w' self ''value'') (run_ops w self ys) =
       (case num_fold v ys of None \<Rightarrow> Inl OverflowError | Some r \<Rightarrow> Inr (Some r))"
proof (induction ys arbitrary: w v)
  case Nil
  then show ?case by simp
next
  case (Cons y ys)
  from Cons.prems have rest: "list_all (\<lambda>x. is_numeric (op_arg x)) ys"
    and arg: "is_numeric (op_arg y)" by simp_all
  show ?case
  proof (cases y)
    case (Add n)
    with arg have n: "is_numeric n" by simp
    show ?thesis
    proof (cases "num_plus v n")
      case None
      then show ?thesis
        using Cons.prems(1) Add py_add_num [OF Cons.prems(2) n] by (simp add: add_eq)
    next
      case (Some r)
      have h: "heap (setattr w self ''value'' r) self ''value'' = Some r" by simp
      from Cons.IH [OF h num_plus_numeric [OF Some] rest] show ?thesis
        using Cons.prems(1) Add Some py_add_num [OF Cons.prems(2) n] by (simp add: add_eq)
    qed
  next
    case (Multiply n)
    with arg have n: "is_numeric n" by simp
    show ?thesis
    proof (cases "num_times v n")
      case None
      then show ?thesis
        using Cons.prems(1) Multiply py_mul_num [OF Cons.prems(2) n] by (simp add: multiply_eq)
    next
      case (Some r)
      have h: "heap (setattr w self ''value'' r) self ''value'' = Some r" by simp
      from Cons.IH [OF h num_times_numeric [OF Some] rest] show ?thesis
        using Cons.prems(1) Multiply Some py_mul_num [OF Cons.prems(2) n]
        by (simp add: multiply_eq)
    qed
  qed
qed

lemma list_all_take: "list_all P ys \<Longrightarrow> list_all P (take k ys)"
  by (induction ys arbitrary: k) (auto simp add: take_Cons split: nat.splits)

lemma num_fold_int:
  "num_fold (PInt v) (map (map_op PInt) xs) = Some (PInt (int_fold v xs))"
proof (induction xs arbitrary: v)
  case Nil
  then show ?case by (simp add: int_fold_def)
next
  case (Cons x xs)
  then show ?case by (cases x) (simp_all add: int_fold_def)
qed

lemma num_plus_None_iff:
  "is_numeric v \<Longrightarrow> is_numeric n \<Longrightarrow>
     (num_plus v n = None) =
     (\<exists>a y. ((v = PInt a \<and> n = PFloat y) \<or> (v = PFloat y \<and> n = PInt a)) \<and>
            2 ^ 1024 - 2 ^ 970 \<le> \<bar>a\<bar>)"
  by (cases v; cases n) (auto simp add: is_numeric_def simp del: float_add.simps)

lemma num_times_None_iff:
  "is_numeric v \<Longrightarrow> is_numeric n \<Longrightarrow>
     (num_times v n = None) =
     (\<exists>a y. ((v = PInt a \<and> n = PFloat y) \<or> (v = PFloat y \<and> n = PInt a)) \<and>
            2 ^ 1024 - 2 ^ 970 \<le> \<bar>a\<bar>)"
  by (cases v; cases n) (auto simp add: is_numeric_def simp del: float_mul.simps)

text \<open>
  C2, as the specification states it: for every stored value \<open>v\<close> and every numeric \<open>n\<close>,
  \<^verbatim>\<open>add(n)\<close> stores \<open>v + n\<close> and returns it. An integer that is too large for a float
  cannot be added to one: after \<^verbatim>\<open>add(10**309)\<close> the call \<^verbatim>\<open>add(0.5)\<close> raises
  \<^verbatim>\<open>OverflowError\<close> and returns nothing (\<^verbatim>\<open>0.5\<close> is \<open>Finite (2 ^ 52) (- 53)\<close>).
\<close>

theorem add_overflow_counterexample:
  "add (snd (Calculator start_world)) (fst (Calculator start_world)) (PInt (10 ^ 309))
     = Inr (PInt (10 ^ 309),
            setattr (snd (Calculator start_world)) (fst (Calculator start_world)) ''value''
              (PInt (10 ^ 309)))
   \<and> add (setattr (snd (Calculator start_world)) (fst (Calculator start_world)) ''value''
            (PInt (10 ^ 309)))
        (fst (Calculator start_world)) (PFloat (Finite 4503599627370496 (- 53)))
     = Inl OverflowError
   \<and> is_double (Finite 4503599627370496 (- 53))"
proof -
  have a1: "add (snd (Calculator start_world)) (fst (Calculator start_world)) (PInt (10 ^ 309))
     = Inr (PInt (10 ^ 309),
            setattr (snd (Calculator start_world)) (fst (Calculator start_world)) ''value''
              (PInt (10 ^ 309)))"
    by (simp add: add_eq [OF Calculator_value])
  have "int_to_float (10 ^ 309) = Inl OverflowError"
    by (rule int_to_float_overflow) simp
  then have a2: "add (setattr (snd (Calculator start_world)) (fst (Calculator start_world))
                    ''value'' (PInt (10 ^ 309)))
                  (fst (Calculator start_world)) (PFloat (Finite 4503599627370496 (- 53)))
     = Inl OverflowError"
    by (simp add: add_eq [of _ _ "PInt (10 ^ 309)"])
  have d: "is_double (Finite 4503599627370496 (- 53))"
    by (simp add: is_double_def)
  show ?thesis
    by (intro conjI) (rule a1, rule a2, rule d)
qed

text \<open>
  C2, amended. For every numeric stored value \<open>v\<close> and every numeric \<open>n\<close>, \<^verbatim>\<open>add(n)\<close>
  stores \<open>v + n\<close> and returns it, the attribute then holding what was returned: the exact
  sum of two integers, the binary64 sum of two floats, and the binary64 sum with the
  integer rounded to a float when one operand is an integer of magnitude below
  \<open>2 ^ 1024 - 2 ^ 970\<close> and the other a float. When the integer is that large or larger,
  \<^verbatim>\<open>add(n)\<close> raises \<^verbatim>\<open>OverflowError\<close> instead.
\<close>

theorem add_on_numbers:
  assumes "heap w self ''value'' = Some v"
  shows "(\<forall>a b. v = PInt a \<and> n = PInt b \<longrightarrow>
            add w self n = Inr (PInt (a + b), setattr w self ''value'' (PInt (a + b))))
       \<and> (\<forall>x y. v = PFloat x \<and> n = PFloat y \<longrightarrow>
            add w self n =
              Inr (PFloat (float_add x y), setattr w self ''value'' (PFloat (float_add x y))))
       \<and> (\<forall>a y. v = PInt a \<and> n = PFloat y \<and> \<bar>a\<bar> < 2 ^ 1024 - 2 ^ 970 \<longrightarrow>
            add w self n =
              Inr (PFloat (float_add (round_to_double a 0) y),
                   setattr w self ''value'' (PFloat (float_add (round_to_double a 0) y))))
       \<and> (\<forall>x b. v = PFloat x \<and> n = PInt b \<and> \<bar>b\<bar> < 2 ^ 1024 - 2 ^ 970 \<longrightarrow>
            add w self n =
              Inr (PFloat (float_add x (round_to_double b 0)),
                   setattr w self ''value'' (PFloat (float_add x (round_to_double b 0)))))
       \<and> (\<forall>a y. ((v = PInt a \<and> n = PFloat y) \<or> (v = PFloat y \<and> n = PInt a)) \<and>
                 2 ^ 1024 - 2 ^ 970 \<le> \<bar>a\<bar> \<longrightarrow>
            add w self n = Inl OverflowError)
       \<and> (\<forall>r w'. add w self n = Inr (r, w') \<longrightarrow> heap w' self ''value'' = Some r)"
proof -
  note e = add_eq [OF assms, of n]
  have 1: "\<forall>a b. v = PInt a \<and> n = PInt b \<longrightarrow>
            add w self n = Inr (PInt (a + b), setattr w self ''value'' (PInt (a + b)))"
    unfolding e by simp
  have 2: "\<forall>x y. v = PFloat x \<and> n = PFloat y \<longrightarrow>
            add w self n =
              Inr (PFloat (float_add x y), setattr w self ''value'' (PFloat (float_add x y)))"
    unfolding e by (simp del: float_add.simps)
  have 3: "\<forall>a y. v = PInt a \<and> n = PFloat y \<and> \<bar>a\<bar> < 2 ^ 1024 - 2 ^ 970 \<longrightarrow>
            add w self n =
              Inr (PFloat (float_add (round_to_double a 0) y),
                   setattr w self ''value'' (PFloat (float_add (round_to_double a 0) y)))"
  proof (intro allI impI, elim conjE)
    fix a y
    assume v: "v = PInt a" and n: "n = PFloat y" and lt: "\<bar>a\<bar> < 2 ^ 1024 - 2 ^ 970"
    have i: "int_to_float a = Inr (round_to_double a 0)" using lt by (rule int_to_float_value)
    show "add w self n =
              Inr (PFloat (float_add (round_to_double a 0) y),
                   setattr w self ''value'' (PFloat (float_add (round_to_double a 0) y)))"
      using v n by (simp add: add_eq [OF assms] i del: float_add.simps)
  qed
  have 4: "\<forall>x b. v = PFloat x \<and> n = PInt b \<and> \<bar>b\<bar> < 2 ^ 1024 - 2 ^ 970 \<longrightarrow>
            add w self n =
              Inr (PFloat (float_add x (round_to_double b 0)),
                   setattr w self ''value'' (PFloat (float_add x (round_to_double b 0))))"
  proof (intro allI impI, elim conjE)
    fix x b
    assume v: "v = PFloat x" and n: "n = PInt b" and lt: "\<bar>b\<bar> < 2 ^ 1024 - 2 ^ 970"
    have i: "int_to_float b = Inr (round_to_double b 0)" using lt by (rule int_to_float_value)
    show "add w self n =
              Inr (PFloat (float_add x (round_to_double b 0)),
                   setattr w self ''value'' (PFloat (float_add x (round_to_double b 0))))"
      using v n by (simp add: add_eq [OF assms] i del: float_add.simps)
  qed
  have 5: "\<forall>a y. ((v = PInt a \<and> n = PFloat y) \<or> (v = PFloat y \<and> n = PInt a)) \<and>
                 2 ^ 1024 - 2 ^ 970 \<le> \<bar>a\<bar> \<longrightarrow>
            add w self n = Inl OverflowError"
  proof (intro allI impI, elim conjE)
    fix a y
    assume c: "(v = PInt a \<and> n = PFloat y) \<or> (v = PFloat y \<and> n = PInt a)"
      and ge: "2 ^ 1024 - 2 ^ 970 \<le> \<bar>a\<bar>"
    have i: "int_to_float a = Inl OverflowError" using ge by (rule int_to_float_overflow)
    from c show "add w self n = Inl OverflowError"
    proof (elim disjE conjE)
      assume "v = PInt a" "n = PFloat y"
      then show ?thesis by (simp add: add_eq [OF assms] i del: float_add.simps)
    next
      assume "v = PFloat y" "n = PInt a"
      then show ?thesis by (simp add: add_eq [OF assms] i del: float_add.simps)
    qed
  qed
  have 6: "\<forall>r w'. add w self n = Inr (r, w') \<longrightarrow> heap w' self ''value'' = Some r"
    unfolding e by (cases "py_add v n") simp_all
  show ?thesis
    by (intro conjI) (rule 1, rule 2, rule 3, rule 4, rule 5, rule 6)
qed

theorem add_on_numbers_witness:
  "add (setattr start_world 0 ''value'' (PInt 3)) 0 (PInt 4) =
     Inr (PInt 7, setattr (setattr start_world 0 ''value'' (PInt 3)) 0 ''value'' (PInt 7))"
proof -
  have h: "heap (setattr start_world 0 ''value'' (PInt 3)) 0 ''value'' = Some (PInt 3)"
    by simp
  show ?thesis
    using add_on_numbers [OF h, of "PInt 4", THEN conjunct1] by simp
qed

text \<open>
  C3, as the specification states it: for every stored value \<open>v\<close> and every numeric \<open>n\<close>,
  \<^verbatim>\<open>multiply(n)\<close> stores \<open>v * n\<close> and returns it. After \<^verbatim>\<open>add(2**1024)\<close> the call
  \<^verbatim>\<open>multiply(0.0)\<close> raises \<^verbatim>\<open>OverflowError\<close> and returns nothing: the integer has no
  float.
\<close>

theorem multiply_overflow_counterexample:
  "add (snd (Calculator start_world)) (fst (Calculator start_world)) (PInt (2 ^ 1024))
     = Inr (PInt (2 ^ 1024),
            setattr (snd (Calculator start_world)) (fst (Calculator start_world)) ''value''
              (PInt (2 ^ 1024)))
   \<and> multiply (setattr (snd (Calculator start_world)) (fst (Calculator start_world)) ''value''
            (PInt (2 ^ 1024)))
        (fst (Calculator start_world)) (PFloat (Finite 0 (- 1074)))
     = Inl OverflowError
   \<and> is_double (Finite 0 (- 1074))"
proof -
  have a1: "add (snd (Calculator start_world)) (fst (Calculator start_world)) (PInt (2 ^ 1024))
     = Inr (PInt (2 ^ 1024),
            setattr (snd (Calculator start_world)) (fst (Calculator start_world)) ''value''
              (PInt (2 ^ 1024)))"
    by (simp add: add_eq [OF Calculator_value])
  have "int_to_float (2 ^ 1024) = Inl OverflowError"
    by (rule int_to_float_overflow) simp
  then have a2: "multiply (setattr (snd (Calculator start_world)) (fst (Calculator start_world))
                    ''value'' (PInt (2 ^ 1024)))
                  (fst (Calculator start_world)) (PFloat (Finite 0 (- 1074)))
     = Inl OverflowError"
    by (simp add: multiply_eq [of _ _ "PInt (2 ^ 1024)"])
  have d: "is_double (Finite 0 (- 1074))"
    by (simp add: is_double_def)
  show ?thesis
    by (intro conjI) (rule a1, rule a2, rule d)
qed

text \<open>
  C3, amended. For every numeric stored value \<open>v\<close> and every numeric \<open>n\<close>,
  \<^verbatim>\<open>multiply(n)\<close> stores \<open>v * n\<close> and returns it, the attribute then holding what was
  returned: the exact product of two integers, the binary64 product of two floats, and the
  binary64 product with the integer rounded to a float when one operand is an integer of
  magnitude below \<open>2 ^ 1024 - 2 ^ 970\<close> and the other a float. When the integer is that
  large or larger, \<^verbatim>\<open>multiply(n)\<close> raises \<^verbatim>\<open>OverflowError\<close> instead.
\<close>

theorem multiply_on_numbers:
  assumes "heap w self ''value'' = Some v"
  shows "(\<forall>a b. v = PInt a \<and> n = PInt b \<longrightarrow>
            multiply w self n = Inr (PInt (a * b), setattr w self ''value'' (PInt (a * b))))
       \<and> (\<forall>x y. v = PFloat x \<and> n = PFloat y \<longrightarrow>
            multiply w self n =
              Inr (PFloat (float_mul x y), setattr w self ''value'' (PFloat (float_mul x y))))
       \<and> (\<forall>a y. v = PInt a \<and> n = PFloat y \<and> \<bar>a\<bar> < 2 ^ 1024 - 2 ^ 970 \<longrightarrow>
            multiply w self n =
              Inr (PFloat (float_mul (round_to_double a 0) y),
                   setattr w self ''value'' (PFloat (float_mul (round_to_double a 0) y))))
       \<and> (\<forall>x b. v = PFloat x \<and> n = PInt b \<and> \<bar>b\<bar> < 2 ^ 1024 - 2 ^ 970 \<longrightarrow>
            multiply w self n =
              Inr (PFloat (float_mul x (round_to_double b 0)),
                   setattr w self ''value'' (PFloat (float_mul x (round_to_double b 0)))))
       \<and> (\<forall>a y. ((v = PInt a \<and> n = PFloat y) \<or> (v = PFloat y \<and> n = PInt a)) \<and>
                 2 ^ 1024 - 2 ^ 970 \<le> \<bar>a\<bar> \<longrightarrow>
            multiply w self n = Inl OverflowError)
       \<and> (\<forall>r w'. multiply w self n = Inr (r, w') \<longrightarrow> heap w' self ''value'' = Some r)"
proof -
  note e = multiply_eq [OF assms, of n]
  have 1: "\<forall>a b. v = PInt a \<and> n = PInt b \<longrightarrow>
            multiply w self n = Inr (PInt (a * b), setattr w self ''value'' (PInt (a * b)))"
    unfolding e by simp
  have 2: "\<forall>x y. v = PFloat x \<and> n = PFloat y \<longrightarrow>
            multiply w self n =
              Inr (PFloat (float_mul x y), setattr w self ''value'' (PFloat (float_mul x y)))"
    unfolding e by (simp del: float_mul.simps)
  have 3: "\<forall>a y. v = PInt a \<and> n = PFloat y \<and> \<bar>a\<bar> < 2 ^ 1024 - 2 ^ 970 \<longrightarrow>
            multiply w self n =
              Inr (PFloat (float_mul (round_to_double a 0) y),
                   setattr w self ''value'' (PFloat (float_mul (round_to_double a 0) y)))"
  proof (intro allI impI, elim conjE)
    fix a y
    assume v: "v = PInt a" and n: "n = PFloat y" and lt: "\<bar>a\<bar> < 2 ^ 1024 - 2 ^ 970"
    have i: "int_to_float a = Inr (round_to_double a 0)" using lt by (rule int_to_float_value)
    show "multiply w self n =
              Inr (PFloat (float_mul (round_to_double a 0) y),
                   setattr w self ''value'' (PFloat (float_mul (round_to_double a 0) y)))"
      using v n by (simp add: multiply_eq [OF assms] i del: float_mul.simps)
  qed
  have 4: "\<forall>x b. v = PFloat x \<and> n = PInt b \<and> \<bar>b\<bar> < 2 ^ 1024 - 2 ^ 970 \<longrightarrow>
            multiply w self n =
              Inr (PFloat (float_mul x (round_to_double b 0)),
                   setattr w self ''value'' (PFloat (float_mul x (round_to_double b 0))))"
  proof (intro allI impI, elim conjE)
    fix x b
    assume v: "v = PFloat x" and n: "n = PInt b" and lt: "\<bar>b\<bar> < 2 ^ 1024 - 2 ^ 970"
    have i: "int_to_float b = Inr (round_to_double b 0)" using lt by (rule int_to_float_value)
    show "multiply w self n =
              Inr (PFloat (float_mul x (round_to_double b 0)),
                   setattr w self ''value'' (PFloat (float_mul x (round_to_double b 0))))"
      using v n by (simp add: multiply_eq [OF assms] i del: float_mul.simps)
  qed
  have 5: "\<forall>a y. ((v = PInt a \<and> n = PFloat y) \<or> (v = PFloat y \<and> n = PInt a)) \<and>
                 2 ^ 1024 - 2 ^ 970 \<le> \<bar>a\<bar> \<longrightarrow>
            multiply w self n = Inl OverflowError"
  proof (intro allI impI, elim conjE)
    fix a y
    assume c: "(v = PInt a \<and> n = PFloat y) \<or> (v = PFloat y \<and> n = PInt a)"
      and ge: "2 ^ 1024 - 2 ^ 970 \<le> \<bar>a\<bar>"
    have i: "int_to_float a = Inl OverflowError" using ge by (rule int_to_float_overflow)
    from c show "multiply w self n = Inl OverflowError"
    proof (elim disjE conjE)
      assume "v = PInt a" "n = PFloat y"
      then show ?thesis by (simp add: multiply_eq [OF assms] i del: float_mul.simps)
    next
      assume "v = PFloat y" "n = PInt a"
      then show ?thesis by (simp add: multiply_eq [OF assms] i del: float_mul.simps)
    qed
  qed
  have 6: "\<forall>r w'. multiply w self n = Inr (r, w') \<longrightarrow> heap w' self ''value'' = Some r"
    unfolding e by (cases "py_mul v n") simp_all
  show ?thesis
    by (intro conjI) (rule 1, rule 2, rule 3, rule 4, rule 5, rule 6)
qed

theorem multiply_on_numbers_witness:
  "multiply (setattr start_world 0 ''value'' (PInt 3)) 0 (PInt 4) =
     Inr (PInt 12, setattr (setattr start_world 0 ''value'' (PInt 3)) 0 ''value'' (PInt 12))"
proof -
  have h: "heap (setattr start_world 0 ''value'' (PInt 3)) 0 ''value'' = Some (PInt 3)"
    by simp
  show ?thesis
    using multiply_on_numbers [OF h, of "PInt 4", THEN conjunct1] by simp
qed

text \<open>
  C1, as the specification states it: on a new \<^verbatim>\<open>Calculator\<close>, after each operation of a
  sequence of calls with numeric arguments the value is the fold of the arguments so far.
  The sequence \<^verbatim>\<open>add(2**1024)\<close>, \<^verbatim>\<open>multiply(1.0)\<close> does not get that far: the first call
  leaves \<open>2 ^ 1024\<close>, the second raises \<^verbatim>\<open>OverflowError\<close>, and no value is the product
  (\<^verbatim>\<open>1.0\<close> is \<open>Finite (2 ^ 52) (- 52)\<close>).
\<close>

theorem fold_overflow_counterexample:
  "run_ops (snd (Calculator start_world)) (fst (Calculator start_world))
     [Add (PInt (2 ^ 1024))]
     = Inr (setattr (snd (Calculator start_world)) (fst (Calculator start_world)) ''value''
              (PInt (2 ^ 1024)))
   \<and> run_ops (snd (Calculator start_world)) (fst (Calculator start_world))
        [Add (PInt (2 ^ 1024)), Multiply (PFloat (Finite 4503599627370496 (- 52)))]
     = Inl OverflowError
   \<and> is_double (Finite 4503599627370496 (- 52))"
proof -
  have a1: "add (snd (Calculator start_world)) (fst (Calculator start_world)) (PInt (2 ^ 1024))
     = Inr (PInt (2 ^ 1024),
            setattr (snd (Calculator start_world)) (fst (Calculator start_world)) ''value''
              (PInt (2 ^ 1024)))"
    by (simp add: add_eq [OF Calculator_value])
  have "int_to_float (2 ^ 1024) = Inl OverflowError"
    by (rule int_to_float_overflow) simp
  then have a2: "multiply (setattr (snd (Calculator start_world)) (fst (Calculator start_world))
                    ''value'' (PInt (2 ^ 1024)))
                  (fst (Calculator start_world)) (PFloat (Finite 4503599627370496 (- 52)))
     = Inl OverflowError"
    by (simp add: multiply_eq [of _ _ "PInt (2 ^ 1024)"])
  have r1: "run_ops (snd (Calculator start_world)) (fst (Calculator start_world))
     [Add (PInt (2 ^ 1024))]
     = Inr (setattr (snd (Calculator start_world)) (fst (Calculator start_world)) ''value''
              (PInt (2 ^ 1024)))"
    by (simp only: run_ops.simps call.simps a1 and_then_Inr prod.case)
  have r2: "run_ops (snd (Calculator start_world)) (fst (Calculator start_world))
        [Add (PInt (2 ^ 1024)), Multiply (PFloat (Finite 4503599627370496 (- 52)))]
     = Inl OverflowError"
    by (simp only: run_ops.simps call.simps a1 a2 and_then_Inr and_then_Inl prod.case)
  have d: "is_double (Finite 4503599627370496 (- 52))"
    by (simp add: is_double_def)
  show ?thesis
    by (intro conjI) (rule r1, rule r2, rule d)
qed

text \<open>
  C1, amended. On a new \<^verbatim>\<open>Calculator\<close>, every sequence of \<^verbatim>\<open>add\<close>/\<^verbatim>\<open>multiply\<close> calls
  with integer arguments runs to its end, and after each call the value is the
  left-to-right fold of \<open>+\<close>/\<open>*\<close> over the arguments so far, starting from 0; with no call
  the value is 0. With numeric arguments in general, after each call the value is the
  fold in the arithmetic of the numbers (\<open>num_fold\<close>) as long as that fold has a result; the
  run ends with \<^verbatim>\<open>OverflowError\<close> at the first call that combines a float with an integer
  of magnitude \<open>2 ^ 1024 - 2 ^ 970\<close> or more, which is exactly where the fold has none.
\<close>

theorem value_is_numeric_fold:
  "(\<forall>k. \<exists>w'. run_ops (snd (Calculator w)) (fst (Calculator w)) (map (map_op PInt) (take k xs))
               = Inr w' \<and>
             heap w' (fst (Calculator w)) ''value'' = Some (PInt (int_fold 0 (take k xs))))
   \<and> run_ops (snd (Calculator w)) (fst (Calculator w)) [] = Inr (snd (Calculator w))
   \<and> heap (snd (Calculator w)) (fst (Calculator w)) ''value'' = Some (PInt 0)
   \<and> (list_all (\<lambda>x. is_numeric (op_arg x)) ys \<longrightarrow>
        (\<forall>k. map_sum id (\<lambda>w'. heap w' (fst (Calculator w)) ''value'')
               (run_ops (snd (Calculator w)) (fst (Calculator w)) (take k ys))
             = (case num_fold (PInt 0) (take k ys) of
                  None \<Rightarrow> Inl OverflowError
                | Some r \<Rightarrow> Inr (Some r))))
   \<and> (\<forall>v n. is_numeric v \<and> is_numeric n \<longrightarrow>
        (num_plus v n = None) =
          (\<exists>a y. ((v = PInt a \<and> n = PFloat y) \<or> (v = PFloat y \<and> n = PInt a)) \<and>
                 2 ^ 1024 - 2 ^ 970 \<le> \<bar>a\<bar>) \<and>
        (num_times v n = None) =
          (\<exists>a y. ((v = PInt a \<and> n = PFloat y) \<or> (v = PFloat y \<and> n = PInt a)) \<and>
                 2 ^ 1024 - 2 ^ 970 \<le> \<bar>a\<bar>))"
proof -
  have 1: "\<forall>k. \<exists>w'. run_ops (snd (Calculator w)) (fst (Calculator w))
                      (map (map_op PInt) (take k xs)) = Inr w' \<and>
             heap w' (fst (Calculator w)) ''value'' = Some (PInt (int_fold 0 (take k xs)))"
    using run_ops_int [OF Calculator_value] by blast
  have 2: "run_ops (snd (Calculator w)) (fst (Calculator w)) [] = Inr (snd (Calculator w))"
    by simp
  have z: "is_numeric (PInt 0)" by (simp add: is_numeric_def)
  have 4: "list_all (\<lambda>x. is_numeric (op_arg x)) ys \<longrightarrow>
        (\<forall>k. map_sum id (\<lambda>w'. heap w' (fst (Calculator w)) ''value'')
               (run_ops (snd (Calculator w)) (fst (Calculator w)) (take k ys))
             = (case num_fold (PInt 0) (take k ys) of
                  None \<Rightarrow> Inl OverflowError
                | Some r \<Rightarrow> Inr (Some r)))"
  proof (intro impI allI)
    fix k
    assume "list_all (\<lambda>x. is_numeric (op_arg x)) ys"
    then have "list_all (\<lambda>x. is_numeric (op_arg x)) (take k ys)" by (rule list_all_take)
    from run_ops_num_fold [OF Calculator_value z this]
    show "map_sum id (\<lambda>w'. heap w' (fst (Calculator w)) ''value'')
               (run_ops (snd (Calculator w)) (fst (Calculator w)) (take k ys))
             = (case num_fold (PInt 0) (take k ys) of
                  None \<Rightarrow> Inl OverflowError
                | Some r \<Rightarrow> Inr (Some r))" .
  qed
  have 5: "\<forall>v n. is_numeric v \<and> is_numeric n \<longrightarrow>
        (num_plus v n = None) =
          (\<exists>a y. ((v = PInt a \<and> n = PFloat y) \<or> (v = PFloat y \<and> n = PInt a)) \<and>
                 2 ^ 1024 - 2 ^ 970 \<le> \<bar>a\<bar>) \<and>
        (num_times v n = None) =
          (\<exists>a y. ((v = PInt a \<and> n = PFloat y) \<or> (v = PFloat y \<and> n = PInt a)) \<and>
                 2 ^ 1024 - 2 ^ 970 \<le> \<bar>a\<bar>)"
  proof (intro allI impI)
    fix v n
    assume "is_numeric v \<and> is_numeric n"
    then have a: "is_numeric v" and b: "is_numeric n" by simp_all
    show "(num_plus v n = None) =
          (\<exists>a y. ((v = PInt a \<and> n = PFloat y) \<or> (v = PFloat y \<and> n = PInt a)) \<and>
                 2 ^ 1024 - 2 ^ 970 \<le> \<bar>a\<bar>) \<and>
        (num_times v n = None) =
          (\<exists>a y. ((v = PInt a \<and> n = PFloat y) \<or> (v = PFloat y \<and> n = PInt a)) \<and>
                 2 ^ 1024 - 2 ^ 970 \<le> \<bar>a\<bar>)"
      by (intro conjI) (rule num_plus_None_iff [OF a b], rule num_times_None_iff [OF a b])
  qed
  show ?thesis
    by (intro conjI) (rule 1, rule 2, rule Calculator_value, rule 4, rule 5)
qed

theorem value_is_numeric_fold_witness:
  "map_sum id (\<lambda>w'. heap w' (fst (Calculator start_world)) ''value'')
     (run_ops (snd (Calculator start_world)) (fst (Calculator start_world))
        [Add (PInt 5), Multiply (PInt 2), Add (PInt (- 3))])
   = Inr (Some (PInt 7))"
proof -
  have l: "list_all (\<lambda>x. is_numeric (op_arg x))
             [Add (PInt 5), Multiply (PInt 2), Add (PInt (- 3))]"
    by (simp add: is_numeric_def)
  note t = value_is_numeric_fold
    [where w = start_world and xs = "[]"
       and ys = "[Add (PInt 5), Multiply (PInt 2), Add (PInt (- 3))]"]
  from t [THEN conjunct2, THEN conjunct2, THEN conjunct2, THEN conjunct1, THEN mp, OF l,
          THEN spec, of 3]
  show ?thesis by simp
qed

subsection \<open>What the methods touch\<close>

lemma call_Inr_D:
  "call w self x = Inr (r, w') \<Longrightarrow>
     (\<exists>v. heap w self ''value'' = Some v) \<and> w' = setattr w self ''value'' r"
proof (cases "heap w self ''value''")
  case None
  then show "call w self x = Inr (r, w') \<Longrightarrow> ?thesis"
    by (cases x) (simp_all add: add_def multiply_def getattr_None)
next
  case (Some v)
  then show "call w self x = Inr (r, w') \<Longrightarrow> ?thesis"
    by (cases x) (auto simp add: add_eq multiply_eq and_then_def split: sum.splits)
qed

lemma call_reads_value_only:
  "heap w2 self ''value'' = heap w self ''value'' \<Longrightarrow>
     map_sum id fst (call w2 self x) = map_sum id fst (call w self x)"
proof (cases "heap w self ''value''")
  case None
  then show "heap w2 self ''value'' = heap w self ''value'' \<Longrightarrow> ?thesis"
    by (cases x) (simp_all add: add_def multiply_def getattr_None)
next
  case (Some v)
  then show "heap w2 self ''value'' = heap w self ''value'' \<Longrightarrow> ?thesis"
    by (cases x) (auto simp add: add_eq multiply_eq and_then_def split: sum.splits)
qed

text \<open>
  C10. A call of \<^verbatim>\<open>add\<close> or \<^verbatim>\<open>multiply\<close> that returns has changed the attribute
  \<^verbatim>\<open>value\<close> of its instance and nothing else: standard output, the allocator, every
  other object and every other attribute of the instance are as before, and the instance
  has the same attributes. What the call returns or raises depends on the world only
  through that attribute. A new \<^verbatim>\<open>Calculator\<close> has the attribute \<^verbatim>\<open>value\<close> and no
  other.
\<close>

theorem methods_touch_only_value:
  "(\<forall>r w'. call w self x = Inr (r, w') \<longrightarrow>
       stdout w' = stdout w
       \<and> next_ref w' = next_ref w
       \<and> (\<forall>r'. r' \<noteq> self \<longrightarrow> heap w' r' = heap w r')
       \<and> (\<forall>a. a \<noteq> ''value'' \<longrightarrow> heap w' self a = heap w self a)
       \<and> dom (heap w' self) = dom (heap w self)
       \<and> heap w' self ''value'' = Some r)
   \<and> (\<forall>w2. heap w2 self ''value'' = heap w self ''value'' \<longrightarrow>
         map_sum id fst (call w2 self x) = map_sum id fst (call w self x))
   \<and> dom (heap (snd (Calculator w)) (fst (Calculator w))) = {''value''}"
proof -
  have frame: "stdout w' = stdout w
       \<and> next_ref w' = next_ref w
       \<and> (\<forall>r'. r' \<noteq> self \<longrightarrow> heap w' r' = heap w r')
       \<and> (\<forall>a. a \<noteq> ''value'' \<longrightarrow> heap w' self a = heap w self a)
       \<and> dom (heap w' self) = dom (heap w self)
       \<and> heap w' self ''value'' = Some r"
    if c: "call w self x = Inr (r, w')" for r w'
  proof -
    from call_Inr_D [OF c] obtain v where
      v: "heap w self ''value'' = Some v" and w': "w' = setattr w self ''value'' r"
      by blast
    have 1: "stdout w' = stdout w" by (simp add: w')
    have 2: "next_ref w' = next_ref w" by (simp add: w')
    have 3: "\<forall>r'. r' \<noteq> self \<longrightarrow> heap w' r' = heap w r'" by (simp add: w' setattr_def)
    have 4: "\<forall>a. a \<noteq> ''value'' \<longrightarrow> heap w' self a = heap w self a"
      by (simp add: w' setattr_def)
    have "''value'' \<in> dom (heap w self)" using v by (rule domI)
    then have 5: "dom (heap w' self) = dom (heap w self)"
      by (simp add: w' setattr_def insert_absorb)
    have 6: "heap w' self ''value'' = Some r" by (simp add: w')
    show ?thesis
      by (intro conjI) (rule 1, rule 2, rule 3, rule 4, rule 5, rule 6)
  qed
  have a: "\<forall>r w'. call w self x = Inr (r, w') \<longrightarrow>
       stdout w' = stdout w
       \<and> next_ref w' = next_ref w
       \<and> (\<forall>r'. r' \<noteq> self \<longrightarrow> heap w' r' = heap w r')
       \<and> (\<forall>a. a \<noteq> ''value'' \<longrightarrow> heap w' self a = heap w self a)
       \<and> dom (heap w' self) = dom (heap w self)
       \<and> heap w' self ''value'' = Some r"
    by (intro allI impI) (rule frame)
  have b: "\<forall>w2. heap w2 self ''value'' = heap w self ''value'' \<longrightarrow>
         map_sum id fst (call w2 self x) = map_sum id fst (call w self x)"
    by (intro allI impI) (rule call_reads_value_only)
  have fresh: "dom (heap (snd (Calculator w)) (fst (Calculator w))) = {''value''}"
    by (simp add: Calculator_def Calculator_init_def setattr_def Let_def)
  show ?thesis
    by (intro conjI) (rule a, rule b, rule fresh)
qed

theorem methods_touch_only_value_witness:
  "stdout (setattr (py_print (snd (Calculator start_world)) ''text'') 0 ''value'' (PInt 5))
     = stdout (py_print (snd (Calculator start_world)) ''text'')
   \<and> heap (setattr (py_print (snd (Calculator start_world)) ''text'') 0 ''value'' (PInt 5)) 1
     = heap (py_print (snd (Calculator start_world)) ''text'') 1
   \<and> dom (heap (setattr (py_print (snd (Calculator start_world)) ''text'') 0 ''value'' (PInt 5)) 0)
     = dom (heap (py_print (snd (Calculator start_world)) ''text'') 0)
   \<and> dom (heap (snd (Calculator start_world)) (fst (Calculator start_world))) = {''value''}"
proof -
  have v: "heap (py_print (snd (Calculator start_world)) ''text'') 0 ''value'' = Some (PInt 0)"
    by (simp add: py_print_def Calculator_def Calculator_init_def setattr_def Let_def)
  have c: "call (py_print (snd (Calculator start_world)) ''text'') 0 (Add (PInt 5)) =
             Inr (PInt 5, setattr (py_print (snd (Calculator start_world)) ''text'') 0 ''value''
                            (PInt 5))"
    by (simp add: add_eq [OF v])
  note t = methods_touch_only_value
    [where w = "py_print (snd (Calculator start_world)) ''text''" and self = 0
       and x = "Add (PInt 5)"]
  from t [THEN conjunct1, THEN spec, THEN spec, THEN mp, OF c]
  have f: "stdout (setattr (py_print (snd (Calculator start_world)) ''text'') 0 ''value'' (PInt 5))
             = stdout (py_print (snd (Calculator start_world)) ''text'')
     \<and> (\<forall>r'. r' \<noteq> 0 \<longrightarrow>
           heap (setattr (py_print (snd (Calculator start_world)) ''text'') 0 ''value'' (PInt 5)) r'
           = heap (py_print (snd (Calculator start_world)) ''text'') r')
     \<and> dom (heap (setattr (py_print (snd (Calculator start_world)) ''text'') 0 ''value'' (PInt 5)) 0)
         = dom (heap (py_print (snd (Calculator start_world)) ''text'') 0)"
    by simp
  have d: "dom (heap (snd (Calculator start_world)) (fst (Calculator start_world))) = {''value''}"
    by (simp add: Calculator_def Calculator_init_def setattr_def Let_def)
  show ?thesis
    using f d by simp
qed

subsection \<open>The greeting\<close>

text \<open>
  C9. Every call of \<^verbatim>\<open>hello_world\<close> appends the text \<^verbatim>\<open>Hello World!\<close> and a newline to
  standard output, once (the output grows by exactly that one line), changes nothing
  else, and returns the string \<^verbatim>\<open>success\<close>.
\<close>

theorem hello_world_prints_once_and_returns_success:
  "hello_world w = (PStr ''success'', w\<lparr>stdout := stdout w @ ''Hello World!'' @ [CHR 0x0A]\<rparr>)
   \<and> fst (hello_world w) = PStr ''success''
   \<and> stdout (snd (hello_world w)) = stdout w @ ''Hello World!'' @ [CHR 0x0A]
   \<and> text_lines [] (''Hello World!'' @ [CHR 0x0A]) = [''Hello World!'']
   \<and> heap (snd (hello_world w)) = heap w
   \<and> next_ref (snd (hello_world w)) = next_ref w"
  by (simp add: hello_world_def py_print_def)

theorem hello_world_prints_once_and_returns_success_witness:
  "hello_world start_world =
     (PStr ''success'', \<lparr>heap = (\<lambda>r. Map.empty), next_ref = 0, stdout = ''Hello World!'' @ [CHR 0x0A]\<rparr>)"
  using hello_world_prints_once_and_returns_success [of start_world]
  by (simp add: start_world_def)

subsection \<open>The main block\<close>

lemma digits_10: "digits 10 = ''10''"
  by (simp add: digits.simps [of 10] digits.simps [of 1] digit_char_def)

lemma int_str_10: "int_str 10 = ''10''"
  by (simp add: int_str_def digits_10)

lemma main_eq:
  "main float_repr w =
     Inr (py_print
            (setattr (setattr (snd (Calculator w)) (fst (Calculator w)) ''value'' (PInt 5))
               (fst (Calculator w)) ''value'' (PInt 10))
            ''Result: 10'')"
proof -
  have a: "add (snd (Calculator w)) (fst (Calculator w)) (PInt 5) =
             Inr (PInt 5, setattr (snd (Calculator w)) (fst (Calculator w)) ''value'' (PInt 5))"
    by (simp add: add_eq [OF Calculator_value])
  have m: "multiply (setattr (snd (Calculator w)) (fst (Calculator w)) ''value'' (PInt 5))
             (fst (Calculator w)) (PInt 2) =
           Inr (PInt 10,
                setattr (setattr (snd (Calculator w)) (fst (Calculator w)) ''value'' (PInt 5))
                  (fst (Calculator w)) ''value'' (PInt 10))"
    by (simp add: multiply_eq [of _ _ "PInt 5"])
  show ?thesis
    by (simp add: main_def split_beta a m format_value_def int_str_10)
qed

lemma stdout_Calculator: "stdout (snd (Calculator w)) = stdout w"
  by (simp add: Calculator_def Calculator_init_def Let_def)

text \<open>
  C5. In the main block a new \<^verbatim>\<open>Calculator\<close> is constructed, \<^verbatim>\<open>add(5)\<close> returns 5,
  \<^verbatim>\<open>multiply(2)\<close> then returns 10, the final print appends the line \<^verbatim>\<open>Result: 10\<close> to
  standard output, and the block finishes without an exception, so that the process ends
  with status 0.
\<close>

theorem main_flow:
  "(let calc = fst (Calculator w);
        w1 = snd (Calculator w);
        w2 = setattr w1 calc ''value'' (PInt 5);
        w3 = setattr w2 calc ''value'' (PInt 10)
    in heap w1 calc ''value'' = Some (PInt 0)
       \<and> add w1 calc (PInt 5) = Inr (PInt 5, w2)
       \<and> multiply w2 calc (PInt 2) = Inr (PInt 10, w3)
       \<and> main float_repr w = Inr (py_print w3 ''Result: 10'')
       \<and> stdout (py_print w3 ''Result: 10'') = stdout w @ ''Result: 10'' @ [CHR 0x0A]
       \<and> exit_status (main float_repr w) = 0)"
proof -
  have a: "add (snd (Calculator w)) (fst (Calculator w)) (PInt 5) =
             Inr (PInt 5, setattr (snd (Calculator w)) (fst (Calculator w)) ''value'' (PInt 5))"
    by (simp add: add_eq [OF Calculator_value])
  have m: "multiply (setattr (snd (Calculator w)) (fst (Calculator w)) ''value'' (PInt 5))
             (fst (Calculator w)) (PInt 2) =
           Inr (PInt 10,
                setattr (setattr (snd (Calculator w)) (fst (Calculator w)) ''value'' (PInt 5))
                  (fst (Calculator w)) ''value'' (PInt 10))"
    by (simp add: multiply_eq [of _ _ "PInt 5"])
  show ?thesis
    by (simp add: Let_def Calculator_value a m main_eq exit_status_def py_print_def
        stdout_Calculator)
qed

theorem main_flow_witness:
  "map_sum id stdout (main (\<lambda>x. []) start_world) = Inr (''Result: 10'' @ [CHR 0x0A])
   \<and> exit_status (main (\<lambda>x. []) start_world) = 0"
  using main_flow [of start_world "\<lambda>x. []"]
  by (simp add: Let_def exit_status_def)

text \<open>
  C6, as the specification states it: the reference run writes exactly two lines,
  \<^verbatim>\<open>Hello World!\<close> and \<^verbatim>\<open>Result: 10\<close>. The main block never calls \<^verbatim>\<open>hello_world\<close>:
  started with nothing written, the run writes the one line \<^verbatim>\<open>Result: 10\<close>.
\<close>

theorem reference_run_two_lines_counterexample:
  "map_sum id (\<lambda>w. text_lines [] (stdout w)) (main (\<lambda>x. []) start_world) = Inr [''Result: 10'']
   \<and> map_sum id (\<lambda>w. text_lines [] (stdout w)) (main (\<lambda>x. []) start_world)
       \<noteq> Inr [''Hello World!'', ''Result: 10'']
   \<and> map_sum id (\<lambda>w. length (text_lines [] (stdout w))) (main (\<lambda>x. []) start_world) \<noteq> Inr 2"
  by (simp add: main_eq py_print_def stdout_Calculator)

text \<open>
  C6, amended. The reference run writes exactly one line to standard output:
  \<^verbatim>\<open>Result: <value>\<close>, where \<^verbatim>\<open><value>\<close> is the decimal text of the final value of the
  calculator, which is 10. The line \<^verbatim>\<open>Hello World!\<close> is written by \<^verbatim>\<open>hello_world\<close> only,
  which the main block does not call.
\<close>

theorem reference_run_output:
  "\<exists>w'. main float_repr w = Inr w'
      \<and> heap w' (fst (Calculator w)) ''value'' = Some (PInt 10)
      \<and> stdout w' = stdout w @ ''Result: '' @ int_str 10 @ [CHR 0x0A]
      \<and> format_value float_repr (PInt 10) = int_str 10
      \<and> int_str 10 = ''10''
      \<and> text_lines [] (''Result: '' @ int_str 10 @ [CHR 0x0A]) = [''Result: 10'']"
  by (simp add: main_eq py_print_def stdout_Calculator int_str_10 format_value_def)

theorem reference_run_output_witness:
  "map_sum id stdout (main (\<lambda>x. []) start_world) = Inr (''Result: 10'' @ [CHR 0x0A])"
  using reference_run_output [of "\<lambda>x. []" start_world]
  by (auto simp add: int_str_10)

end
